theory Spec2Isabelle
  imports Main
begin

section \<open>Shared vocabulary\<close>

text \<open>
  A Go \<^verbatim>\<open>error\<close> value is its message; \<^verbatim>\<open>nil\<close> is \<open>None\<close> of \<open>error option\<close>.
  A call either returns or panics (a nil dereference, a panic raised by a library).
\<close>

datatype error = Error string

datatype 'a result = Panic string | Return 'a

definition nil_dereference :: string where
  "nil_dereference = ''invalid memory address or nil pointer dereference''"

section \<open>engine/node.go: the node wrapper\<close>

subsection \<open>Data\<close>

text \<open>
  \<^verbatim>\<open>types.Configuration\<close> is \<^verbatim>\<open>map[string]interface{}\<close>. The untyped values that
  occur in this file are strings, booleans, numbers, string maps (the chain variables and
  secrets), the chain-context pointer (kept as the identity of the chain it points to, or nil)
  and a copy of a node definition (id, type, configuration, debug flag).
\<close>

datatype any_value =
    VString string
  | VBool bool
  | VInt int
  | VStringMap "string \<Rightarrow> string option"
  | VChainCtx "string option"
  | VRuleNode string string "(string \<Rightarrow> any_value option) option" bool

type_synonym Configuration = "string \<Rightarrow> any_value option"

text \<open>\<^verbatim>\<open>types.RuleNode\<close>: the declarative definition of one node. A nil configuration map is \<open>None\<close>.\<close>

record RuleNode =
  Id_str :: string
  Type :: string
  Configuration :: "Configuration option"
  DebugMode :: bool

text \<open>
  A component instance handed out by the registry (\<^verbatim>\<open>types.Node\<close>): its type name and the
  identity of the fresh object. What its \<^verbatim>\<open>Init\<close> does is a parameter of the model.
\<close>

record Component =
  comp_Type :: string
  comp_ref :: nat

text \<open>
  \<^verbatim>\<open>types.Config\<close>, the fields this file reads: the component registry (\<^verbatim>\<open>NewNode\<close> by type
  name; nil in the zero value) and the global properties (nil when absent).
\<close>

record Config =
  ComponentsRegistry :: "(string \<Rightarrow> error + Component) option"
  Properties :: "(string \<Rightarrow> string option) option"

text \<open>
  An aspect, as far as node initialization sees it: \<^verbatim>\<open>GetEngineAspects\<close> selects the aspects
  that implement \<^verbatim>\<open>OnNodeBeforeInit\<close>. The hook receives the definition by pointer, so it
  returns the definition as it leaves it.
\<close>

datatype Aspect =
  Aspect (aspect_name: string)
         (OnNodeBeforeInit: "(Config \<Rightarrow> RuleNode \<Rightarrow> error option \<times> RuleNode) option")

record RuleChainCtx =
  ChainId :: string
  chain_aspects :: "Aspect list"
  vars :: "(string \<Rightarrow> string option) option"
  decryptSecrets :: "(string \<Rightarrow> string option) option"

text \<open>\<^verbatim>\<open>RuleNodeCtx\<close>: the embedded component instance and the pointers are nil-able.\<close>

record RuleNodeCtx =
  Node :: "Component option"
  ChainCtx :: "RuleChainCtx option"
  SelfDefinition :: "RuleNode option"
  config :: Config
  aspects :: "Aspect list"
  isInitNetResource :: bool

text \<open>What lies outside the file: a component's own \<^verbatim>\<open>Init\<close> and \<^verbatim>\<open>str.ExecuteTemplate\<close>.\<close>

type_synonym template_env = "string \<Rightarrow> (string \<Rightarrow> string option) option option"

record node_ext =
  Node_Init :: "Component \<Rightarrow> Config \<Rightarrow> Configuration \<Rightarrow> error option"
  ExecuteTemplate :: "string \<Rightarrow> template_env \<Rightarrow> string"

text \<open>
  Modelled from the spec: the keys below are declared in \<^verbatim>\<open>api/types\<close>, which is not among
  the sources. They carry the names the placeholders are written with
  (\<^verbatim>\<open>${global.x}\<close>, \<^verbatim>\<open>${vars.x}\<close>) and the names the wrapper's injected
  entries are known by.
\<close>

definition types_Global :: string where
  "types_Global = ''global''"

definition types_Vars :: string where
  "types_Vars = ''vars''"

definition types_Secrets :: string where
  "types_Secrets = ''secrets''"

definition NodeConfigurationKeyIsInitNetResource :: string where
  "NodeConfigurationKeyIsInitNetResource = ''$isInitNetResource''"

definition NodeConfigurationKeyChainCtx :: string where
  "NodeConfigurationKeyChainCtx = ''$chainCtx''"

definition NodeConfigurationKeySelfDefinition :: string where
  "NodeConfigurationKeySelfDefinition = ''$selfDefinition''"

definition zero_Config :: Config where
  "zero_Config = \<lparr>ComponentsRegistry = None, Properties = None\<rparr>"

text \<open>\<^verbatim>\<open>&RuleNodeCtx{}\<close>: every field at its zero value.\<close>

definition zero_RuleNodeCtx :: RuleNodeCtx where
  "zero_RuleNodeCtx =
     \<lparr>Node = None, ChainCtx = None, SelfDefinition = None, config = zero_Config,
      aspects = [], isInitNetResource = False\<rparr>"

subsection \<open>Variable substitution\<close>

text \<open>\<^verbatim>\<open>copyMap\<close>: a fresh map with the entries of the input; ranging over a nil map copies nothing.\<close>

definition copyMap :: "(string \<Rightarrow> string option) option \<Rightarrow> (string \<Rightarrow> string option)" where
  "copyMap inputMap = (case inputMap of None \<Rightarrow> Map.empty | Some m \<Rightarrow> m)"

text \<open>The \<^verbatim>\<open>env\<close> map of \<^verbatim>\<open>processVariables\<close> (lines 172 to 188): two entries.\<close>

definition globalEnv_of :: "Config \<Rightarrow> (string \<Rightarrow> string option)" where
  "globalEnv_of cfg = (case Properties cfg of None \<Rightarrow> Map.empty | Some p \<Rightarrow> p)"

definition varsEnv_of :: "RuleChainCtx option \<Rightarrow> (string \<Rightarrow> string option) option" where
  "varsEnv_of chainCtx = (case chainCtx of None \<Rightarrow> None | Some c \<Rightarrow> Some (copyMap (vars c)))"

definition secrets_of :: "RuleChainCtx option \<Rightarrow> (string \<Rightarrow> string option) option" where
  "secrets_of chainCtx =
     (case chainCtx of None \<Rightarrow> None | Some c \<Rightarrow> Some (copyMap (decryptSecrets c)))"

definition processVariables_env :: "Config \<Rightarrow> RuleChainCtx option \<Rightarrow> template_env" where
  "processVariables_env cfg chainCtx =
     [types_Global \<mapsto> Some (globalEnv_of cfg), types_Vars \<mapsto> varsEnv_of chainCtx]"

text \<open>The loop over the configuration writes each key once, so it is a pointwise map.\<close>

definition resolve_entry :: "node_ext \<Rightarrow> template_env \<Rightarrow> any_value \<Rightarrow> any_value" where
  "resolve_entry X env v =
     (case v of VString strV \<Rightarrow> VString (ExecuteTemplate X strV env) | _ \<Rightarrow> v)"

definition processVariables ::
  "node_ext \<Rightarrow> Config \<Rightarrow> RuleChainCtx option \<Rightarrow> Configuration \<Rightarrow> Configuration \<times> error option"
where
  "processVariables X cfg chainCtx configuration =
     (let env = processVariables_env cfg chainCtx;
          result = (\<lambda>key. map_option (resolve_entry X env) (configuration key));
          result1 = (case varsEnv_of chainCtx of
                       None \<Rightarrow> result
                     | Some varsEnv \<Rightarrow> result(types_Vars \<mapsto> VStringMap varsEnv));
          result2 = (case secrets_of chainCtx of
                       None \<Rightarrow> result1
                     | Some secrets \<Rightarrow> result1(types_Secrets \<mapsto> VStringMap secrets))
      in (result2, None))"

subsection \<open>Initialization\<close>

text \<open>
  The loop over the before-init aspects: the first hook that returns an error ends it.
\<close>

fun run_before_init :: "Aspect list \<Rightarrow> Config \<Rightarrow> RuleNode \<Rightarrow> error + RuleNode" where
  "run_before_init [] cfg d = Inr d"
| "run_before_init (a # as) cfg d =
     (case OnNodeBeforeInit a of
        None \<Rightarrow> run_before_init as cfg d
      | Some hook \<Rightarrow>
          (case hook cfg d of
             (Some err, _) \<Rightarrow> Inl err
           | (None, d') \<Rightarrow> run_before_init as cfg d'))"

definition populated_ctx ::
  "Component option \<Rightarrow> Config \<Rightarrow> RuleChainCtx option \<Rightarrow> Aspect list \<Rightarrow> RuleNode \<Rightarrow> bool
     \<Rightarrow> RuleNodeCtx"
where
  "populated_ctx node cfg chainCtx asps d isInit =
     \<lparr>Node = node, ChainCtx = chainCtx, SelfDefinition = Some d, config = cfg,
      aspects = asps, isInitNetResource = isInit\<rparr>"

definition init_configuration ::
  "RuleChainCtx option \<Rightarrow> RuleNode \<Rightarrow> bool \<Rightarrow> Configuration \<Rightarrow> Configuration"
where
  "init_configuration chainCtx d isInit configuration =
     (let c1 = (if isInit then configuration(NodeConfigurationKeyIsInitNetResource \<mapsto> VBool True)
                else configuration);
          c2 = c1(NodeConfigurationKeyChainCtx \<mapsto> VChainCtx (map_option ChainId chainCtx))
      in c2(NodeConfigurationKeySelfDefinition \<mapsto>
              VRuleNode (Id_str d) (Type d) (Configuration d) (DebugMode d)))"

text \<open>
  Lines 70 to 73: a nil configuration map of the definition is replaced by an empty one. The
  entries of a configuration map; a nil map has none.
\<close>

definition ensure_Configuration :: "RuleNode \<Rightarrow> RuleNode" where
  "ensure_Configuration d =
     (if Configuration d = None then d\<lparr>Configuration := Some Map.empty\<rparr> else d)"

definition entries :: "RuleNode \<Rightarrow> Configuration" where
  "entries d = (case Configuration d of None \<Rightarrow> Map.empty | Some c \<Rightarrow> c)"

text \<open>
  \<^verbatim>\<open>initRuleNodeCtx\<close> returns a wrapper pointer (nil is \<open>None\<close>) and an error. Calling
  \<^verbatim>\<open>NewNode\<close> on a nil registry is a nil dereference.
\<close>

definition initRuleNodeCtx ::
  "node_ext \<Rightarrow> Config \<Rightarrow> RuleChainCtx option \<Rightarrow> Aspect list \<Rightarrow> RuleNode \<Rightarrow> bool
     \<Rightarrow> (RuleNodeCtx option \<times> error option) result"
where
  "initRuleNodeCtx X cfg chainCtx asps selfDefinition isInit =
     (case run_before_init asps cfg selfDefinition of
        Inl err \<Rightarrow> Return (None, Some err)
      | Inr d \<Rightarrow>
          (case ComponentsRegistry cfg of
             None \<Rightarrow> Panic nil_dereference
           | Some NewNode \<Rightarrow>
               (case NewNode (Type d) of
                  Inl err \<Rightarrow> Return (Some (populated_ctx None cfg chainCtx asps d isInit), Some err)
                | Inr node \<Rightarrow>
                    (let d1 = ensure_Configuration d
                     in case processVariables X cfg chainCtx (entries d1) of
                          (_, Some err) \<Rightarrow> Return (Some zero_RuleNodeCtx, Some err)
                        | (configuration, None) \<Rightarrow>
                            (case Node_Init X node cfg
                                    (init_configuration chainCtx d1 isInit configuration) of
                               Some err \<Rightarrow> Return (Some zero_RuleNodeCtx, Some err)
                             | None \<Rightarrow>
                                 Return (Some (populated_ctx (Some node) cfg chainCtx asps d1 isInit),
                                         None))))))"

text \<open>\<^verbatim>\<open>IsDebugMode\<close> and \<^verbatim>\<open>GetNodeId\<close> dereference the definition pointer.\<close>

definition IsDebugMode :: "RuleNodeCtx \<Rightarrow> bool result" where
  "IsDebugMode rn =
     (case SelfDefinition rn of None \<Rightarrow> Panic nil_dereference | Some d \<Rightarrow> Return (DebugMode d))"

definition GetNodeId :: "RuleNodeCtx \<Rightarrow> string result" where
  "GetNodeId rn =
     (case SelfDefinition rn of None \<Rightarrow> Panic nil_dereference | Some d \<Rightarrow> Return (Id_str d))"

subsection \<open>Reload\<close>

definition Copy :: "RuleNodeCtx \<Rightarrow> RuleNodeCtx \<Rightarrow> RuleNodeCtx" where
  "Copy rn newCtx =
     rn\<lparr>Node := Node newCtx, config := config newCtx, aspects := aspects newCtx,
        SelfDefinition := SelfDefinition newCtx\<rparr>"

text \<open>The call of \<^verbatim>\<open>initRuleNodeCtx\<close> that \<^verbatim>\<open>ReloadSelfFromDef\<close> makes (lines 128 to 135).\<close>

definition reload_init ::
  "node_ext \<Rightarrow> RuleNodeCtx \<Rightarrow> RuleNode \<Rightarrow> (RuleNodeCtx option \<times> error option) result"
where
  "reload_init X rn d =
     (case ChainCtx rn of
        None \<Rightarrow> initRuleNodeCtx X (config rn) None [] d (isInitNetResource rn)
      | Some chainCtx \<Rightarrow>
          initRuleNodeCtx X (config rn) (Some chainCtx) (chain_aspects chainCtx) d
            (isInitNetResource rn))"

text \<open>
  \<^verbatim>\<open>ReloadSelfFromDef\<close> returns the error, the wrapper as the call leaves it, and the
  instances on which \<^verbatim>\<open>Destroy\<close> was called. \<^verbatim>\<open>rn.Destroy()\<close> is the promoted method of
  the embedded interface, a nil dereference when the wrapper holds no instance; so is reading
  the fields of a nil \<^verbatim>\<open>ctx\<close>.
\<close>

definition ReloadSelfFromDef ::
  "node_ext \<Rightarrow> RuleNodeCtx \<Rightarrow> RuleNode \<Rightarrow> (error option \<times> RuleNodeCtx \<times> Component list) result"
where
  "ReloadSelfFromDef X rn d =
     (case reload_init X rn d of
        Panic e \<Rightarrow> Panic e
      | Return (ctx, None) \<Rightarrow>
          (case Node rn of
             None \<Rightarrow> Panic nil_dereference
           | Some old \<Rightarrow>
               (case ctx of
                  None \<Rightarrow> Panic nil_dereference
                | Some newCtx \<Rightarrow> Return (None, Copy rn newCtx, [old])))
      | Return (ctx, Some err) \<Rightarrow> Return (Some err, rn, []))"

subsection \<open>Sub-chain delegation\<close>

text \<open>
  \<^verbatim>\<open>ReloadChild\<close> returns an error and touches nothing; \<^verbatim>\<open>GetNodeById\<close> returns a node
  context (nil) and a found flag: its signature has no error.
\<close>

definition ReloadChild :: "RuleNodeCtx \<Rightarrow> string \<Rightarrow> string \<Rightarrow> error option \<times> RuleNodeCtx" where
  "ReloadChild rn nodeId dsl = (Some (Error ''not support this func''), rn)"

definition GetNodeById :: "RuleNodeCtx \<Rightarrow> string \<Rightarrow> (RuleNodeCtx option \<times> bool) \<times> RuleNodeCtx" where
  "GetNodeById rn nodeId = ((None, False), rn)"


text \<open>
  What the two calls hand back, seen uniformly: \<^verbatim>\<open>ReloadChild\<close> returns an error,
  \<^verbatim>\<open>GetNodeById\<close> a node context and a flag. A call fails as unsupported when the error it
  returns is the one labelled so.
\<close>

datatype go_result =
    GoError "error option"
  | GoNodeFound "RuleNodeCtx option" bool

definition fails_unsupported :: "go_result \<Rightarrow> bool" where
  "fails_unsupported r =
     (case r of GoError (Some e) \<Rightarrow> e = Error ''not support this func'' | _ \<Rightarrow> False)"

definition ReloadChild_result :: "RuleNodeCtx \<Rightarrow> string \<Rightarrow> string \<Rightarrow> go_result" where
  "ReloadChild_result rn nodeId dsl = GoError (fst (ReloadChild rn nodeId dsl))"

definition GetNodeById_result :: "RuleNodeCtx \<Rightarrow> string \<Rightarrow> go_result" where
  "GetNodeById_result rn nodeId =
     GoNodeFound (fst (fst (GetNodeById rn nodeId))) (snd (fst (GetNodeById rn nodeId)))"

section \<open>The HTTP endpoint (package rest)\<close>

subsection \<open>Strings\<close>

text \<open>
  \<^verbatim>\<open>strings.ToUpper\<close> and \<^verbatim>\<open>strings.TrimSpace\<close> on ASCII text: the letters a to z are
  mapped to A to Z, and the white space trimmed is space, tab, line feed, vertical tab, form
  feed and carriage return. \<^verbatim>\<open>str.ToString\<close> is the identity on the strings that stand for
  route parameters here.
\<close>

definition upper_char :: "char \<Rightarrow> char" where
  "upper_char c =
     (case map_of (zip ''abcdefghijklmnopqrstuvwxyz'' ''ABCDEFGHIJKLMNOPQRSTUVWXYZ'') c of
        None \<Rightarrow> c
      | Some u \<Rightarrow> u)"

definition ToUpper :: "string \<Rightarrow> string" where
  "ToUpper s = map upper_char s"

definition is_space :: "char \<Rightarrow> bool" where
  "is_space c = (c \<in> set [CHR '' '', CHR 0x09, CHR 0x0A, CHR 0x0B, CHR 0x0C, CHR 0x0D])"

definition TrimSpace :: "string \<Rightarrow> string" where
  "TrimSpace s = rev (dropWhile is_space (rev (dropWhile is_space s)))"

subsection \<open>Routes\<close>

text \<open>
  \<^verbatim>\<open>endpoint.Router\<close> is an interface of another package; a route object is the record of
  what its getters return, and a setter is a field update. Route objects are shared by
  pointer between the route storage and the handlers registered on the HTTP router, so they
  live in a store indexed by address; every address holds an object (Go pointers do not
  dangle) and a nil route is \<open>None\<close> where the code tests for it.
\<close>

datatype To = To (IsWait: bool)

datatype From = From (ToString: string) (GetTo: "To option")

record Router =
  GetId :: string
  GetParams :: "string list"
  IsDisable :: bool
  GetFrom :: "From option"

type_synonym heap = "nat \<Rightarrow> Router"

text \<open>
  Modelled from the spec: \<^verbatim>\<open>Router.FromToString\<close> is not among the sources; it is the path
  of the route's source, empty when the route has none.
\<close>

definition FromToString :: "Router \<Rightarrow> string" where
  "FromToString r = (case GetFrom r of None \<Rightarrow> [] | Some f \<Rightarrow> ToString f)"

subsection \<open>The endpoint\<close>

text \<open>
  The dispatch surface (\<^verbatim>\<open>httprouter.Router\<close>) is the list of the handles registered on it:
  method, path, and the closure \<^verbatim>\<open>rest.handler(item, isWait)\<close>, which holds the route's
  address and the wait flag. The CORS handler and interceptors that \<^verbatim>\<open>newRouter\<close> installs
  when \<^verbatim>\<open>AllowCors\<close> is set are not part of the model.
\<close>

record handle =
  h_method :: string
  h_path :: string
  h_router :: nat
  h_isWait :: bool

text \<open>
  The fields of \<^verbatim>\<open>Rest\<close>: \<^verbatim>\<open>Server\<close> is the address of the \<^verbatim>\<open>http.Server\<close> when there is
  one; \<^verbatim>\<open>router\<close> and \<^verbatim>\<open>RouterStorage\<close> are nil-able; \<^verbatim>\<open>InstanceId\<close> and \<^verbatim>\<open>IsInit\<close>
  belong to the embedded \<^verbatim>\<open>SharedNode\<close>.
\<close>

record RestFields =
  Config_Server :: string
  Config_CertFile :: string
  Config_CertKeyFile :: string
  Server :: "string option"
  router :: "handle list option"
  started :: bool
  RouterStorage :: "(string \<Rightarrow> nat option) option"
  InstanceId :: string
  IsInit :: bool

text \<open>
  Modelled from the spec: the pool behind \<^verbatim>\<open>SharedNode\<close> is not among the sources. An
  endpoint is its fields together with what \<^verbatim>\<open>SharedNode.Get\<close> yields when the endpoint
  refers to a pooled instance: an error, or the pooled endpoint.
\<close>

datatype Rest = Rest (rest_fields: RestFields) (rest_pool: "error + Rest")

text \<open>
  Outside the package: whether \<^verbatim>\<open>httprouter.Handle\<close> panics for a method and path given the
  handles already registered (and with what value), what \<^verbatim>\<open>net.Listen\<close> returns for an
  address, and the order in which Go ranges over a map.
\<close>

record rest_ext =
  Handle_panic :: "handle list \<Rightarrow> string \<Rightarrow> string \<Rightarrow> string option"
  net_Listen :: "string \<Rightarrow> error option"
  range_order :: "(string \<Rightarrow> nat option) \<Rightarrow> string list"

definition RouterKey :: "string \<Rightarrow> string \<Rightarrow> string" where
  "RouterKey method from = method @ '':'' @ from"

definition newRouter :: "RestFields \<Rightarrow> RestFields" where
  "newRouter f = f\<lparr>router := Some []\<rparr>"

definition initServer :: "RestFields \<Rightarrow> RestFields" where
  "initServer f = (if router f = None then newRouter f else f)"

definition is_ident_start :: "char \<Rightarrow> bool" where
  "is_ident_start c =
     (c \<in> set ''abcdefghijklmnopqrstuvwxyzABCDEFGHIJKLMNOPQRSTUVWXYZ_'')"

definition is_ident_char :: "char \<Rightarrow> bool" where
  "is_ident_char c = (is_ident_start c \<or> c \<in> set ''0123456789'')"

text \<open>
  \<^verbatim>\<open>convertPathParams\<close>: every leftmost match of \<^verbatim>\<open>{([a-zA-Z_][a-zA-Z0-9_]*)}\<close> becomes a
  colon followed by the name.
\<close>

function convertPathParams :: "string \<Rightarrow> string" where
  "convertPathParams [] = []"
| "convertPathParams (c # cs) =
     (let name = takeWhile is_ident_char cs; rest = dropWhile is_ident_char cs
      in if c = CHR ''{'' \<and> name \<noteq> [] \<and> is_ident_start (hd name) \<and> rest \<noteq> []
            \<and> hd rest = CHR ''}''
         then CHR '':'' # name @ convertPathParams (tl rest)
         else c # convertPathParams cs)"
  by pat_completeness auto
termination
proof (relation "measure length")
  show "wf (measure length)" by simp
next
  fix c :: char and cs name rest :: string
  assume "rest = dropWhile is_ident_char cs"
  moreover have "length (dropWhile is_ident_char cs) \<le> length cs"
    by (rule length_dropWhile_le)
  ultimately have "length (tl rest) \<le> length cs"
    by simp
  then show "(tl rest, c # cs) \<in> measure length" by simp
next
  fix c :: char and cs :: string
  show "(cs, c # cs) \<in> measure length" by simp
qed

text \<open>\<^verbatim>\<open>Listen\<close>: the address the listener is opened on, and what \<^verbatim>\<open>net.Listen\<close> returns.\<close>

definition Listen :: "rest_ext \<Rightarrow> RestFields \<Rightarrow> error option" where
  "Listen X f =
     (let addr = (case Server f of None \<Rightarrow> [] | Some a \<Rightarrow> a);
          addr' = (if addr = [] then
                     (if Config_CertKeyFile f \<noteq> [] \<and> Config_CertFile f \<noteq> []
                      then '':https'' else '':http'')
                   else addr)
      in net_Listen X addr')"

text \<open>
  \<^verbatim>\<open>startServer\<close>: the server object is created, then the listener is opened; the serving
  goroutine is not modelled.
\<close>

definition startServer :: "rest_ext \<Rightarrow> RestFields \<Rightarrow> error option \<times> RestFields" where
  "startServer X f =
     (if started f then (None, f)
      else (let f1 = f\<lparr>Server := Some (Config_Server f)\<rparr>
            in case Listen X f1 of
                 Some err \<Rightarrow> (Some err, f1)
               | None \<Rightarrow> (None, f1\<lparr>started := True\<rparr>)))"

text \<open>
  Modelled from the spec: \<^verbatim>\<open>SharedNode.Init\<close> and \<^verbatim>\<open>IsInit\<close> are not among the sources.
  \<^verbatim>\<open>Init(sharedKey, eagerlyConstruct)\<close> records the key and, with \<^verbatim>\<open>eagerlyConstruct\<close>
  false as here, defers construction, so it returns nil.
\<close>

definition checkIsInitSharedNode :: "RestFields \<Rightarrow> error option \<times> RestFields" where
  "checkIsInitSharedNode f = (if \<not> IsInit f then (None, f\<lparr>IsInit := True\<rparr>) else (None, f))"

text \<open>
  Modelled from the spec: \<^verbatim>\<open>SharedNode.Get\<close>, which \<^verbatim>\<open>Start\<close> calls, is not among the
  sources; it returns the instance the construction function built (\<^verbatim>\<open>initServer\<close>,
  which returns the endpoint itself and never fails) or, for an endpoint that refers to a
  pooled instance, that instance or the pool's error. The rest of \<^verbatim>\<open>Start\<close> is the source's.
\<close>

fun Start :: "rest_ext \<Rightarrow> Rest \<Rightarrow> error option \<times> Rest" where
  "Start X (Rest f p) =
     (case checkIsInitSharedNode f of
        (Some err, f1) \<Rightarrow> (Some err, Rest f1 p)
      | (None, f1) \<Rightarrow>
          (if InstanceId f1 \<noteq> [] then
             (case p of
                Inl err \<Rightarrow> (Some err, Rest f1 p)
              | Inr (Rest g q) \<Rightarrow>
                  (case startServer X g of (e, g') \<Rightarrow> (e, Rest f1 (Inr (Rest g' q)))))
           else (case startServer X (initServer f1) of (e, f2) \<Rightarrow> (e, Rest f2 p))))"

text \<open>
  Modelled from the spec: \<^verbatim>\<open>BaseEndpoint.HasRouter\<close> is not among the sources; the route
  storage is the map from route id to route, and \<^verbatim>\<open>HasRouter\<close> tells whether an id is a key
  of it.
\<close>

fun HasRouter :: "Rest \<Rightarrow> string \<Rightarrow> bool" where
  "HasRouter (Rest f p) routerId =
     (case RouterStorage f of None \<Rightarrow> False | Some storage \<Rightarrow> storage routerId \<noteq> None)"

definition nil_map_write :: string where
  "nil_map_write = ''assignment to entry in nil map''"

fun init_storage :: "Rest \<Rightarrow> Rest" where
  "init_storage (Rest f p) =
     (if RouterStorage f = None then Rest (f\<lparr>RouterStorage := Some Map.empty\<rparr>) p
      else Rest f p)"

lemma size_init_storage: "size (init_storage R) = size R"
  by (cases R) simp

definition item_isWait :: "Router \<Rightarrow> bool" where
  "item_isWait r =
     (case GetFrom r of
        None \<Rightarrow> False
      | Some from \<Rightarrow> (case GetTo from of None \<Rightarrow> False | Some to \<Rightarrow> IsWait to))"

text \<open>
  Lines 483 to 487 of \<^verbatim>\<open>addRouter\<close> on the route object: the composite id is set when
  the route has none, then the parameters are set to the method.
\<close>

definition set_route :: "string \<Rightarrow> string \<Rightarrow> Router \<Rightarrow> Router" where
  "set_route method path item =
     (let item1 = (if GetId item = [] then item\<lparr>GetId := RouterKey method path\<rparr> else item)
      in item1\<lparr>GetParams := [method]\<rparr>)"

text \<open>
  Lines 496 to 507: the router is created when there is none, and the handler closure is
  registered for the method and the converted path. The call of \<^verbatim>\<open>Handle\<close> may panic; the
  panic value comes first in the result, the fields as they are then second.
\<close>

definition register_handle ::
  "rest_ext \<Rightarrow> string \<Rightarrow> string \<Rightarrow> nat \<Rightarrow> Router \<Rightarrow> RestFields \<Rightarrow> string option \<times> RestFields"
where
  "register_handle X method path item r f =
     (let f1 = (if router f = None then newRouter f else f);
          handles = (case router f1 of None \<Rightarrow> [] | Some hs \<Rightarrow> hs);
          isWait = item_isWait r;
          path' = convertPathParams path
      in case Handle_panic X handles method path' of
           Some e \<Rightarrow> (Some e, f1)
         | None \<Rightarrow>
             (None, f1\<lparr>router := Some (handles @
                [\<lparr>h_method = method, h_path = path', h_router = item, h_isWait = isWait\<rparr>])\<rparr>))"

text \<open>
  The loop of \<^verbatim>\<open>addRouter\<close> (lines 481 to 510), \<^verbatim>\<open>method\<close> being upper-cased already. It
  returns what the function returns or the panic that leaves it, the store and the endpoint.
  The call \<^verbatim>\<open>shared.addRouter(method, item)\<close> runs the whole function on the pooled
  endpoint: upper-casing, creating the storage, then the loop over the one item.
\<close>

function addRouter_loop ::
  "rest_ext \<Rightarrow> string \<Rightarrow> nat list \<Rightarrow> heap \<Rightarrow> Rest \<Rightarrow> error option result \<times> heap \<times> Rest"
where
  "addRouter_loop X method [] h R = (Return None, h, R)"
| "addRouter_loop X method (item # routers) h (Rest f p) =
     (let path = TrimSpace (FromToString (h item));
          r = set_route method path (h item);
          h1 = h(item := r)
      in case RouterStorage f of
           None \<Rightarrow> (Panic nil_map_write, h1, Rest f p)
         | Some storage \<Rightarrow>
             (let f1 = f\<lparr>RouterStorage := Some (storage(GetId r \<mapsto> item))\<rparr>
              in if InstanceId f1 \<noteq> [] then
                   (case p of
                      Inr shared \<Rightarrow>
                        (case addRouter_loop X (ToUpper method) [item] h1 (init_storage shared) of
                           (res, h2, shared') \<Rightarrow> (res, h2, Rest f1 (Inr shared')))
                    | Inl err \<Rightarrow> (Return (Some err), h1, Rest f1 p))
                 else
                   (case register_handle X method path item r f1 of
                      (Some e, f2) \<Rightarrow> (Panic e, h1, Rest f2 p)
                    | (None, f2) \<Rightarrow> addRouter_loop X method routers h1 (Rest f2 p))))"
  by pat_completeness auto
termination
  by (relation "inv_image (less_than <*lex*> less_than)
        (\<lambda>(X, method, routers, h, R). (size R, length routers))")
     (auto simp: size_init_storage)

definition addRouter ::
  "rest_ext \<Rightarrow> string \<Rightarrow> nat list \<Rightarrow> heap \<Rightarrow> Rest \<Rightarrow> error option result \<times> heap \<times> Rest"
where
  "addRouter X method routers h R = addRouter_loop X (ToUpper method) routers h (init_storage R)"


text \<open>
  \<^verbatim>\<open>AddRouter\<close> recovers a panic of \<^verbatim>\<open>addRouter\<close> into an error; the named result
  \<^verbatim>\<open>id\<close> is then still empty.
\<close>

definition AddRouter ::
  "rest_ext \<Rightarrow> heap \<Rightarrow> Rest \<Rightarrow> nat option \<Rightarrow> string list
     \<Rightarrow> (string \<times> error option) \<times> heap \<times> Rest"
where
  "AddRouter X h R routerArg params =
     (if length params \<le> 0 then (([], Some (Error ''need to specify HTTP method'')), h, R)
      else case routerArg of
             None \<Rightarrow> (([], Some (Error ''router can not nil'')), h, R)
           | Some item \<Rightarrow>
               (case addRouter X (ToUpper (hd params)) [item] h R of
                  (Panic e, h', R') \<Rightarrow> (([], Some (Error (''addRouter err :'' @ e))), h', R')
                | (Return err2, h', R') \<Rightarrow> ((GetId (h' item), err2), h', R')))"

text \<open>\<^verbatim>\<open>RemoveRouter\<close>: \<^verbatim>\<open>router.Disable(true)\<close> sets the flag of the stored object.\<close>

definition not_found :: "string \<Rightarrow> error" where
  "not_found routerId = Error (''router: '' @ routerId @ '' not found'')"

fun RemoveRouter :: "heap \<Rightarrow> Rest \<Rightarrow> string \<Rightarrow> error option \<times> heap \<times> Rest" where
  "RemoveRouter h (Rest f p) routerId0 =
     (let routerId = TrimSpace routerId0
      in case RouterStorage f of
           Some storage \<Rightarrow>
             (case storage routerId of
                Some a \<Rightarrow>
                  (if \<not> IsDisable (h a)
                   then (None, h(a := (h a)\<lparr>IsDisable := True\<rparr>), Rest f p)
                   else (Some (not_found routerId), h, Rest f p))
              | None \<Rightarrow> (Some (not_found routerId), h, Rest f p))
         | None \<Rightarrow> (None, h, Rest f p))"

text \<open>
  The closure that \<^verbatim>\<open>handler\<close> returns, run on a request: it answers not-found when its
  route is disabled and hands the exchange to \<^verbatim>\<open>DoProcess\<close> otherwise.
\<close>

datatype response = NotFound | DoProcess nat bool

definition handler :: "nat \<Rightarrow> bool \<Rightarrow> heap \<Rightarrow> response" where
  "handler item isWait h = (if IsDisable (h item) then NotFound else DoProcess item isWait)"

text \<open>Serving through a registered handle runs the closure stored in it.\<close>

definition serve :: "handle \<Rightarrow> heap \<Rightarrow> response" where
  "serve registered h = handler (h_router registered) (h_isWait registered) h"

text \<open>
  The replay loop of \<^verbatim>\<open>Restart\<close> (lines 358 to 369) over the routes of \<^verbatim>\<open>oldRouter\<close> in
  the order the range yields them. It returns the lines handed to \<^verbatim>\<open>Printf\<close> (path and
  error), the store and the endpoint.
\<close>

fun replay ::
  "rest_ext \<Rightarrow> nat list \<Rightarrow> heap \<Rightarrow> Rest \<Rightarrow> (string \<times> error) list \<times> heap \<times> Rest"
where
  "replay X [] h R = ([], h, R)"
| "replay X (a # rs) h R =
     (let h1 = (if length (GetParams (h a)) = 0
                then h(a := (h a)\<lparr>GetParams := [''GET'']\<rparr>) else h)
      in if \<not> HasRouter R (GetId (h1 a)) then
           (case AddRouter X h1 R (Some a) (GetParams (h1 a)) of
              ((_, Some err), h2, R2) \<Rightarrow>
                (case replay X rs h2 R2 of
                   (logged, h3, R3) \<Rightarrow> ((FromToString (h2 a), err) # logged, h3, R3))
            | ((_, None), h2, R2) \<Rightarrow> replay X rs h2 R2)
         else replay X rs h1 R)"

text \<open>The routes \<^verbatim>\<open>Restart\<close> keeps for replay: the stored ones that are not disabled.\<close>

definition enabled_routes :: "heap \<Rightarrow> RestFields \<Rightarrow> (string \<Rightarrow> nat option)" where
  "enabled_routes h f =
     (\<lambda>k. case RouterStorage f of
             None \<Rightarrow> None
           | Some storage \<Rightarrow>
               (case storage k of
                  None \<Rightarrow> None
                | Some a \<Rightarrow> if \<not> IsDisable (h a) then Some a else None))"

text \<open>
  \<^verbatim>\<open>Restart\<close> returns its error, the lines logged, the store and the endpoint. Shutting the
  old \<^verbatim>\<open>http.Server\<close> down has no effect on the state modelled.
\<close>

fun Restart ::
  "rest_ext \<Rightarrow> heap \<Rightarrow> Rest \<Rightarrow> error option \<times> (string \<times> error) list \<times> heap \<times> Rest"
where
  "Restart X h (Rest f p) =
     (if InstanceId f \<noteq> [] then
        (case p of
           Inr shared \<Rightarrow>
             (case Restart X h shared of
                (e, logged, h', shared') \<Rightarrow> (e, logged, h', Rest f (Inr shared')))
         | Inl err \<Rightarrow> (Some err, [], h, Rest f p))
      else
        (let f1 = (if router f \<noteq> None then newRouter f else f);
             oldRouter = enabled_routes h f1;
             f2 = f1\<lparr>RouterStorage := Some Map.empty, started := False\<rparr>
         in case Start X (Rest f2 p) of
              (Some err, R3) \<Rightarrow> (Some err, [], h, R3)
            | (None, R3) \<Rightarrow>
                (case replay X (List.map_filter oldRouter (range_order X oldRouter)) h R3 of
                   (logged, h', R4) \<Rightarrow> (None, logged, h', R4))))"

subsection \<open>Notions for the statements about restart\<close>

text \<open>
  The method a route is replayed with: the first recorded parameter, or GET when none is
  recorded, upper-cased by \<^verbatim>\<open>AddRouter\<close>. The handle the replay registers for a route.
\<close>

definition replay_method :: "Router \<Rightarrow> string" where
  "replay_method r = ToUpper (if GetParams r = [] then ''GET'' else hd (GetParams r))"

definition replay_handle :: "Router \<Rightarrow> nat \<Rightarrow> handle" where
  "replay_handle r a =
     \<lparr>h_method = replay_method r, h_path = convertPathParams (TrimSpace (FromToString r)),
      h_router = a, h_isWait = item_isWait r\<rparr>"

text \<open>
  What a replay over the routes \<open>rs\<close> leaves behind, from store \<open>h\<close> and storage \<open>m\<close>: each
  route is stored under its id and nothing else changes in the storage; the routes' parameters
  are the replay method and no other route object changes; every handle registered belongs to
  a replayed route; each route is either registered or logged, once.
\<close>

definition replay_post ::
  "heap \<Rightarrow> (string \<Rightarrow> nat option) \<Rightarrow> nat list \<Rightarrow> (string \<times> error) list \<Rightarrow> heap
     \<Rightarrow> (string \<Rightarrow> nat option) \<Rightarrow> handle list \<Rightarrow> bool"
where
  "replay_post h m rs logged h' m' hs' \<longleftrightarrow>
     (\<forall>a\<in>set rs. m' (GetId (h a)) = Some a)
     \<and> (\<forall>k. k \<notin> (\<lambda>a. GetId (h a)) ` set rs \<longrightarrow> m' k = m k)
     \<and> (\<forall>a\<in>set rs. h' a = (h a)\<lparr>GetParams := [replay_method (h a)]\<rparr>)
     \<and> (\<forall>b. b \<notin> set rs \<longrightarrow> h' b = h b)
     \<and> (\<forall>x\<in>set hs'. h_router x \<in> set rs \<and> x = replay_handle (h (h_router x)) (h_router x))
     \<and> (\<forall>a\<in>set rs. (\<exists>x\<in>set hs'. h_router x = a)
            \<or> (\<exists>e. (FromToString (h a), Error (''addRouter err :'' @ e)) \<in> set logged))
     \<and> length hs' + length logged = length rs"

section \<open>Components\<close>

text \<open>
  A message, as far as the two components touch it, and the calls a component makes on the
  rule context, in order.
\<close>

record RuleMsg =
  Data :: string
  DataType :: string

datatype tell = TellSuccess RuleMsg | TellFailure RuleMsg error

definition types_TEXT :: string where
  "types_TEXT = ''TEXT''"

subsection \<open>components/external/ssh_node.go\<close>

definition SshClientNotInitErr :: error where
  "SshClientNotInitErr = Error ''ssh client not initialized''"

definition SshCmdEmptyErr :: error where
  "SshCmdEmptyErr = Error ''cmd can not empty''"

text \<open>
  The node after \<^verbatim>\<open>Init\<close>: the client (nil when the dial failed), the configured command,
  and the command template, which maps the message environment to the command line.
\<close>

record SshNode =
  ssh_client :: "nat option"
  Config_Cmd :: string
  cmdTemplate :: "RuleMsg \<Rightarrow> string"

text \<open>The SSH library: opening a session on a client, running a command in a session.\<close>

record ssh_ext =
  NewSession :: "nat \<Rightarrow> error + nat"
  CombinedOutput :: "nat \<Rightarrow> string \<Rightarrow> string \<times> error option"

definition SshNode_OnMsg :: "ssh_ext \<Rightarrow> SshNode \<Rightarrow> RuleMsg \<Rightarrow> tell list" where
  "SshNode_OnMsg X x msg =
     (case ssh_client x of
        None \<Rightarrow> [TellFailure msg SshClientNotInitErr]
      | Some client \<Rightarrow>
          (if Config_Cmd x = [] then [TellFailure msg SshCmdEmptyErr]
           else (let cmd = cmdTemplate x msg
                 in case NewSession X client of
                      Inr session \<Rightarrow>
                        (case CombinedOutput X session cmd of
                           (output, err) \<Rightarrow>
                             (let msg' = msg\<lparr>Data := output, DataType := types_TEXT\<rparr>
                              in case err of
                                   Some e \<Rightarrow> [TellFailure msg' e]
                                 | None \<Rightarrow> [TellSuccess msg']))
                    | Inl err \<Rightarrow> [TellFailure msg err])))"

subsection \<open>components/external/mqtt_client_node.go\<close>

record MqttClientNode =
  Config_QOS :: nat
  topicTemplate :: "RuleMsg \<Rightarrow> string"

text \<open>
  What \<^verbatim>\<open>SharedNode.Get\<close> returns for the node (a client or an error) and what
  \<^verbatim>\<open>Publish\<close> returns for a client, topic, QOS and payload.
\<close>

record mqtt_ext =
  SharedNode_Get :: "error + nat"
  Publish :: "nat \<Rightarrow> string \<Rightarrow> nat \<Rightarrow> string \<Rightarrow> error option"

definition MqttClientNode_OnMsg :: "mqtt_ext \<Rightarrow> MqttClientNode \<Rightarrow> RuleMsg \<Rightarrow> tell list" where
  "MqttClientNode_OnMsg X x msg =
     (let topic = topicTemplate x msg
      in case SharedNode_Get X of
           Inl err \<Rightarrow> [TellFailure msg err]
         | Inr client \<Rightarrow>
             (case Publish X client topic (Config_QOS x) (Data msg) of
                Some err \<Rightarrow> [TellFailure msg err]
              | None \<Rightarrow> [TellSuccess msg]))"


section \<open>Example data\<close>

text \<open>
  A registry that knows one component type, an engine configuration with one global
  property, a chain with one variable and one secret, a component whose \<^verbatim>\<open>Init\<close> wants a
  script, and a template engine that resolves the one placeholder used below.
\<close>

definition example_registry :: "string \<Rightarrow> error + Component" where
  "example_registry t =
     (if t = ''jsFilter'' then Inr \<lparr>comp_Type = ''jsFilter'', comp_ref = 1\<rparr>
      else Inl (Error ''component not found''))"

definition example_Config :: Config where
  "example_Config =
     \<lparr>ComponentsRegistry = Some example_registry, Properties = Some [''region'' \<mapsto> ''eu'']\<rparr>"

definition example_chain :: RuleChainCtx where
  "example_chain =
     \<lparr>ChainId = ''chain01'', chain_aspects = [],
      vars = Some [''ip'' \<mapsto> ''192.168.1.1''], decryptSecrets = Some [''pw'' \<mapsto> ''s3cret'']\<rparr>"

definition example_ext :: node_ext where
  "example_ext =
     \<lparr>Node_Init = (\<lambda>node cfg c. case c ''jsScript'' of
                                    Some (VString s) \<Rightarrow> None
                                  | _ \<Rightarrow> Some (Error ''jsScript missing'')),
      ExecuteTemplate = (\<lambda>s env. if s = ''${vars.ip}''
                                 then (case env ''vars'' of
                                         Some (Some m) \<Rightarrow> (case m ''ip'' of Some v \<Rightarrow> v | None \<Rightarrow> s)
                                       | _ \<Rightarrow> s)
                                 else s)\<rparr>"

definition def_filter :: RuleNode where
  "def_filter =
     \<lparr>Id_str = ''s1'', Type = ''jsFilter'',
      Configuration = Some [''jsScript'' \<mapsto> VString ''return msg.temperature > 50;''],
      DebugMode = True\<rparr>"

definition def_unknown :: RuleNode where
  "def_unknown = def_filter\<lparr>Type := ''nope''\<rparr>"

definition def_no_script :: RuleNode where
  "def_no_script = def_filter\<lparr>Configuration := None\<rparr>"

definition example_wrapper :: RuleNodeCtx where
  "example_wrapper =
     populated_ctx (Some \<lparr>comp_Type = ''jsFilter'', comp_ref = 0\<rparr>) example_Config
       (Some example_chain) [] (def_filter\<lparr>DebugMode := False\<rparr>) False"


text \<open>
  A fresh endpoint as \<^verbatim>\<open>New\<close> makes it; a store of route objects (one enabled without
  recorded parameters, one disabled, one enabled whose path has no leading slash, one new
  without id, one with a caller-supplied id); an endpoint that has the first three stored;
  an HTTP router that refuses a path without leading slash and a method and path registered
  twice, a listener that opens, and a range in key order.
\<close>

definition fresh_fields :: RestFields where
  "fresh_fields =
     \<lparr>Config_Server = '':6333'', Config_CertFile = [], Config_CertKeyFile = [], Server = None,
      router = None, started = False, RouterStorage = None, InstanceId = [], IsInit = False\<rparr>"

definition example_routes :: heap where
  "example_routes a =
     (if a = 0 then \<lparr>GetId = ''GET:/api/a'', GetParams = [], IsDisable = False,
                      GetFrom = Some (From ''/api/a'' (Some (To True)))\<rparr>
      else if a = 1 then \<lparr>GetId = ''POST:/api/b'', GetParams = [''POST''], IsDisable = True,
                           GetFrom = Some (From ''/api/b'' None)\<rparr>
      else if a = 2 then \<lparr>GetId = ''r2'', GetParams = [''put''], IsDisable = False,
                           GetFrom = Some (From ''api/c'' None)\<rparr>
      else if a = 3 then \<lparr>GetId = [], GetParams = [], IsDisable = False,
                           GetFrom = Some (From '' /api/new  '' None)\<rparr>
      else \<lparr>GetId = ''r2'', GetParams = [], IsDisable = False,
             GetFrom = Some (From ''/api/c2'' None)\<rparr>)"

definition example_storage :: "string \<Rightarrow> nat option" where
  "example_storage = [''GET:/api/a'' \<mapsto> 0, ''POST:/api/b'' \<mapsto> 1, ''r2'' \<mapsto> 2]"

definition example_fields :: RestFields where
  "example_fields =
     fresh_fields\<lparr>Server := Some '':6333'', started := True, IsInit := True,
       router := Some [\<lparr>h_method = ''GET'', h_path = ''/api/a'', h_router = 0, h_isWait = True\<rparr>,
                       \<lparr>h_method = ''POST'', h_path = ''/api/b'', h_router = 1, h_isWait = False\<rparr>],
       RouterStorage := Some example_storage\<rparr>"

definition example_rest_ext :: rest_ext where
  "example_rest_ext =
     \<lparr>Handle_panic = (\<lambda>hs m p. if p = [] \<or> hd p \<noteq> CHR ''/'' then Some ''path must begin with /''
                                else if list_ex (\<lambda>x. h_method x = m \<and> h_path x = p) hs
                                then Some ''a handle is already registered'' else None),
      net_Listen = (\<lambda>addr. None),
      range_order = (\<lambda>m. filter (\<lambda>k. m k \<noteq> None) [''GET:/api/a'', ''POST:/api/b'', ''r2''])\<rparr>"

definition no_pool :: "error + Rest" where
  "no_pool = Inl (Error ''no pooled instance'')"

text \<open>
  Two new routes without id, and an endpoint that refers to a pooled instance, the pool
  answering with a fresh endpoint that owns its server.
\<close>

definition new_routes :: heap where
  "new_routes a =
     \<lparr>GetId = [], GetParams = [], IsDisable = False,
      GetFrom = Some (From (if a = 0 then ''/api/a'' else ''/api/b'') None)\<rparr>"

definition pooled_endpoint :: Rest where
  "pooled_endpoint =
     Rest (fresh_fields\<lparr>InstanceId := ''shared''\<rparr>) (Inr (Rest fresh_fields no_pool))"


section \<open>Properties of the node wrapper\<close>

subsection \<open>Hot reload\<close>

lemma reload_init_eq:
  "reload_init X rn d =
     initRuleNodeCtx X (config rn) (ChainCtx rn)
       (case ChainCtx rn of None \<Rightarrow> [] | Some c \<Rightarrow> chain_aspects c) d (isInitNetResource rn)"
  by (simp add: reload_init_def split: option.split)

lemma init_unknown:
  "initRuleNodeCtx example_ext example_Config (Some example_chain) [] def_unknown False =
     Return (Some (populated_ctx None example_Config (Some example_chain) [] def_unknown False),
             Some (Error ''component not found''))"
  by (simp add: initRuleNodeCtx_def example_Config_def example_registry_def def_unknown_def
        def_filter_def)

lemma init_filter:
  "initRuleNodeCtx example_ext example_Config (Some example_chain) [] def_filter False =
     Return (Some (populated_ctx (Some \<lparr>comp_Type = ''jsFilter'', comp_ref = 1\<rparr>) example_Config
                     (Some example_chain) [] def_filter False),
             None)"
  by (simp add: initRuleNodeCtx_def example_Config_def example_registry_def def_filter_def
       processVariables_def Let_def example_ext_def init_configuration_def varsEnv_of_def
       secrets_of_def example_chain_def types_Vars_def types_Secrets_def
       NodeConfigurationKeyIsInitNetResource_def NodeConfigurationKeyChainCtx_def
       NodeConfigurationKeySelfDefinition_def resolve_entry_def ensure_Configuration_def
       entries_def)

lemma init_no_script:
  "initRuleNodeCtx example_ext example_Config (Some example_chain) [] def_no_script False =
     Return (Some zero_RuleNodeCtx, Some (Error ''jsScript missing''))"
  by (simp add: initRuleNodeCtx_def example_Config_def example_registry_def def_filter_def
       def_no_script_def
       processVariables_def Let_def example_ext_def init_configuration_def varsEnv_of_def
       secrets_of_def example_chain_def types_Vars_def types_Secrets_def
       NodeConfigurationKeyIsInitNetResource_def NodeConfigurationKeyChainCtx_def
       NodeConfigurationKeySelfDefinition_def resolve_entry_def ensure_Configuration_def
       entries_def)

lemma example_wrapper_fields:
  "config example_wrapper = example_Config"
  "ChainCtx example_wrapper = Some example_chain"
  "isInitNetResource example_wrapper = False"
  "Node example_wrapper = Some \<lparr>comp_Type = ''jsFilter'', comp_ref = 0\<rparr>"
  "chain_aspects example_chain = []"
  by (simp_all add: example_wrapper_def populated_ctx_def example_chain_def)


text \<open>
  C1. Hot reload of a node is all-or-nothing. \<^verbatim>\<open>ReloadSelfFromDef\<close> initializes a fresh
  wrapper from the new definition, with the old wrapper's engine configuration, chain context,
  the chain's aspects and net-resource flag. If that initialization returns an error, the
  call returns this error, the old wrapper is unchanged and nothing is destroyed. If it
  succeeds (and the old wrapper holds an instance, which \<^verbatim>\<open>Destroy\<close> is called on), the old
  instance is destroyed and instance, configuration, aspects and definition are those of the
  fresh wrapper. Whenever a returning call destroyed something or changed the wrapper, the
  initialization had succeeded.
\<close>

theorem ReloadSelfFromDef_all_or_nothing:
  "(initRuleNodeCtx X (config rn) (ChainCtx rn)
      (case ChainCtx rn of None \<Rightarrow> [] | Some c \<Rightarrow> chain_aspects c) d (isInitNetResource rn)
      = Return (ctx, Some err)
    \<longrightarrow> ReloadSelfFromDef X rn d = Return (Some err, rn, []))
   \<and> (initRuleNodeCtx X (config rn) (ChainCtx rn)
        (case ChainCtx rn of None \<Rightarrow> [] | Some c \<Rightarrow> chain_aspects c) d (isInitNetResource rn)
        = Return (Some newCtx, None) \<and> Node rn = Some old
      \<longrightarrow> ReloadSelfFromDef X rn d =
            Return (None,
                    rn\<lparr>Node := Node newCtx, config := config newCtx, aspects := aspects newCtx,
                       SelfDefinition := SelfDefinition newCtx\<rparr>,
                    [old]))
   \<and> (ReloadSelfFromDef X rn d = Return (e, rn', destroyed) \<and> (destroyed \<noteq> [] \<or> rn' \<noteq> rn)
      \<longrightarrow> e = None
          \<and> (\<exists>c. initRuleNodeCtx X (config rn) (ChainCtx rn)
                 (case ChainCtx rn of None \<Rightarrow> [] | Some c \<Rightarrow> chain_aspects c) d
                 (isInitNetResource rn) = Return (Some c, None))
          \<and> (\<exists>old. Node rn = Some old \<and> destroyed = [old]))"
  unfolding reload_init_eq[symmetric]
  by (auto simp: ReloadSelfFromDef_def Copy_def split: result.splits option.splits prod.splits)


theorem ReloadSelfFromDef_all_or_nothing_witness:
  "ReloadSelfFromDef example_ext example_wrapper def_unknown =
     Return (Some (Error ''component not found''), example_wrapper, [])
   \<and> ReloadSelfFromDef example_ext example_wrapper def_filter =
     Return (None,
             example_wrapper\<lparr>Node := Some \<lparr>comp_Type = ''jsFilter'', comp_ref = 1\<rparr>,
                              SelfDefinition := Some def_filter\<rparr>,
             [\<lparr>comp_Type = ''jsFilter'', comp_ref = 0\<rparr>])"
proof -
  have fails:
    "initRuleNodeCtx example_ext (config example_wrapper) (ChainCtx example_wrapper)
       (case ChainCtx example_wrapper of None \<Rightarrow> [] | Some c \<Rightarrow> chain_aspects c) def_unknown
       (isInitNetResource example_wrapper)
     = Return (Some (populated_ctx None example_Config (Some example_chain) [] def_unknown False),
               Some (Error ''component not found''))"
    by (simp add: example_wrapper_fields init_unknown)
  have succeeds:
    "initRuleNodeCtx example_ext (config example_wrapper) (ChainCtx example_wrapper)
       (case ChainCtx example_wrapper of None \<Rightarrow> [] | Some c \<Rightarrow> chain_aspects c) def_filter
       (isInitNetResource example_wrapper)
     = Return (Some (populated_ctx (Some \<lparr>comp_Type = ''jsFilter'', comp_ref = 1\<rparr>)
                       example_Config (Some example_chain) [] def_filter False), None)"
    by (simp add: example_wrapper_fields init_filter)
  from fails have one: "ReloadSelfFromDef example_ext example_wrapper def_unknown =
     Return (Some (Error ''component not found''), example_wrapper, [])"
    using ReloadSelfFromDef_all_or_nothing [of example_ext example_wrapper def_unknown]
    by blast
  from succeeds example_wrapper_fields(4)
  have "ReloadSelfFromDef example_ext example_wrapper def_filter =
     Return (None,
             example_wrapper\<lparr>Node := Node (populated_ctx (Some \<lparr>comp_Type = ''jsFilter'', comp_ref = 1\<rparr>)
                       example_Config (Some example_chain) [] def_filter False),
                config := config (populated_ctx (Some \<lparr>comp_Type = ''jsFilter'', comp_ref = 1\<rparr>)
                       example_Config (Some example_chain) [] def_filter False),
                aspects := aspects (populated_ctx (Some \<lparr>comp_Type = ''jsFilter'', comp_ref = 1\<rparr>)
                       example_Config (Some example_chain) [] def_filter False),
                SelfDefinition := SelfDefinition (populated_ctx (Some \<lparr>comp_Type = ''jsFilter'', comp_ref = 1\<rparr>)
                       example_Config (Some example_chain) [] def_filter False)\<rparr>,
             [\<lparr>comp_Type = ''jsFilter'', comp_ref = 0\<rparr>])"
    using ReloadSelfFromDef_all_or_nothing [of example_ext example_wrapper def_filter]
    by blast
  then have two: "ReloadSelfFromDef example_ext example_wrapper def_filter =
     Return (None,
             example_wrapper\<lparr>Node := Some \<lparr>comp_Type = ''jsFilter'', comp_ref = 1\<rparr>,
                              SelfDefinition := Some def_filter\<rparr>,
             [\<lparr>comp_Type = ''jsFilter'', comp_ref = 0\<rparr>])"
    by (simp add: populated_ctx_def example_wrapper_def)
  from one two show ?thesis by simp
qed


subsection \<open>Failed initialization\<close>

lemma processVariables_no_error:
  "processVariables X cfg chainCtx conf = (c, e) \<Longrightarrow> e = None"
  by (simp add: processVariables_def Let_def)


text \<open>
  C5, as the code has it. When the before-init aspects pass and the registry fails to
  construct a node of the definition's type, \<^verbatim>\<open>initRuleNodeCtx\<close> returns the construction
  error and a wrapper that holds no instance and carries the chain context, the definition,
  the configuration, the aspects and the flag, so that the node id and the debug flag can be
  read from it. When the component's own \<^verbatim>\<open>Init\<close> fails, it returns the error and an
  empty wrapper: no instance, no chain context and no definition, and reading the node id or
  the debug flag from it dereferences nil.
\<close>

theorem initRuleNodeCtx_failure_wrappers:
  "(run_before_init asps cfg d = Inr d' \<and> ComponentsRegistry cfg = Some NewNode
      \<and> NewNode (Type d') = Inl err
    \<longrightarrow> initRuleNodeCtx X cfg chainCtx asps d isInit =
          Return (Some \<lparr>Node = None, ChainCtx = chainCtx, SelfDefinition = Some d',
                         config = cfg, aspects = asps, isInitNetResource = isInit\<rparr>, Some err)
        \<and> GetNodeId \<lparr>Node = None, ChainCtx = chainCtx, SelfDefinition = Some d',
                      config = cfg, aspects = asps, isInitNetResource = isInit\<rparr> = Return (Id_str d')
        \<and> IsDebugMode \<lparr>Node = None, ChainCtx = chainCtx, SelfDefinition = Some d',
                        config = cfg, aspects = asps, isInitNetResource = isInit\<rparr>
            = Return (DebugMode d'))
   \<and> (run_before_init asps cfg d = Inr d' \<and> ComponentsRegistry cfg = Some NewNode
      \<and> NewNode (Type d') = Inr node
      \<and> Node_Init X node cfg
           (init_configuration chainCtx (ensure_Configuration d') isInit
              (fst (processVariables X cfg chainCtx (entries (ensure_Configuration d'))))) = Some err
    \<longrightarrow> initRuleNodeCtx X cfg chainCtx asps d isInit = Return (Some zero_RuleNodeCtx, Some err)
        \<and> Node zero_RuleNodeCtx = None \<and> ChainCtx zero_RuleNodeCtx = None
        \<and> SelfDefinition zero_RuleNodeCtx = None
        \<and> GetNodeId zero_RuleNodeCtx = Panic nil_dereference
        \<and> IsDebugMode zero_RuleNodeCtx = Panic nil_dereference)"
proof -
  have wrapper: "GetNodeId zero_RuleNodeCtx = Panic nil_dereference"
    "IsDebugMode zero_RuleNodeCtx = Panic nil_dereference"
    "Node zero_RuleNodeCtx = None" "ChainCtx zero_RuleNodeCtx = None"
    "SelfDefinition zero_RuleNodeCtx = None"
    by (simp_all add: GetNodeId_def IsDebugMode_def zero_RuleNodeCtx_def)
  show ?thesis
    by (auto simp: initRuleNodeCtx_def populated_ctx_def GetNodeId_def IsDebugMode_def wrapper
          Let_def split: prod.splits option.splits dest: processVariables_no_error)
qed


theorem initRuleNodeCtx_failure_wrappers_witness:
  "initRuleNodeCtx example_ext example_Config (Some example_chain) [] def_unknown False =
     Return (Some \<lparr>Node = None, ChainCtx = Some example_chain, SelfDefinition = Some def_unknown,
                    config = example_Config, aspects = [], isInitNetResource = False\<rparr>,
             Some (Error ''component not found''))
   \<and> GetNodeId \<lparr>Node = None, ChainCtx = Some example_chain, SelfDefinition = Some def_unknown,
                 config = example_Config, aspects = [], isInitNetResource = False\<rparr> = Return ''s1''
   \<and> initRuleNodeCtx example_ext example_Config (Some example_chain) [] def_no_script False =
       Return (Some zero_RuleNodeCtx, Some (Error ''jsScript missing''))"
proof -
  have reg: "ComponentsRegistry example_Config = Some example_registry"
    by (simp add: example_Config_def)
  have unknown: "example_registry (Type def_unknown) = Inl (Error ''component not found'')"
    by (simp add: example_registry_def def_unknown_def def_filter_def)
  have known: "example_registry (Type def_no_script) = Inr \<lparr>comp_Type = ''jsFilter'', comp_ref = 1\<rparr>"
    by (simp add: example_registry_def def_no_script_def def_filter_def)
  have init_fails:
    "Node_Init example_ext \<lparr>comp_Type = ''jsFilter'', comp_ref = 1\<rparr> example_Config
       (init_configuration (Some example_chain)
          (ensure_Configuration def_no_script) False
          (fst (processVariables example_ext example_Config (Some example_chain)
             (entries (ensure_Configuration def_no_script)))))
     = Some (Error ''jsScript missing'')"
    by (simp add: def_filter_def def_no_script_def
       processVariables_def Let_def example_ext_def init_configuration_def varsEnv_of_def
       secrets_of_def example_chain_def types_Vars_def types_Secrets_def
       NodeConfigurationKeyIsInitNetResource_def NodeConfigurationKeyChainCtx_def
       NodeConfigurationKeySelfDefinition_def resolve_entry_def ensure_Configuration_def
       entries_def)
  have a: "initRuleNodeCtx example_ext example_Config (Some example_chain) [] def_unknown False =
     Return (Some \<lparr>Node = None, ChainCtx = Some example_chain, SelfDefinition = Some def_unknown,
                    config = example_Config, aspects = [], isInitNetResource = False\<rparr>,
             Some (Error ''component not found''))
     \<and> GetNodeId \<lparr>Node = None, ChainCtx = Some example_chain, SelfDefinition = Some def_unknown,
                 config = example_Config, aspects = [], isInitNetResource = False\<rparr>
        = Return (Id_str def_unknown)"
    using initRuleNodeCtx_failure_wrappers
      [where asps = "[]" and cfg = example_Config and d = def_unknown and d' = def_unknown
         and NewNode = example_registry and err = "Error ''component not found''"
         and X = example_ext and chainCtx = "Some example_chain" and isInit = False]
      reg unknown
    by simp
  have b: "initRuleNodeCtx example_ext example_Config (Some example_chain) [] def_no_script False =
       Return (Some zero_RuleNodeCtx, Some (Error ''jsScript missing''))"
    using initRuleNodeCtx_failure_wrappers
      [where asps = "[]" and cfg = example_Config and d = def_no_script and d' = def_no_script
         and NewNode = example_registry and err = "Error ''jsScript missing''"
         and X = example_ext and chainCtx = "Some example_chain" and isInit = False
         and node = "\<lparr>comp_Type = ''jsFilter'', comp_ref = 1\<rparr>"]
      reg known init_fails
    by simp
  have c: "Id_str def_unknown = ''s1''"
    by (simp add: def_unknown_def def_filter_def)
  from a b c show ?thesis by simp
qed


text \<open>
  C5 as stated extends the populated wrapper to every failure of the component's own
  \<^verbatim>\<open>Init\<close>. A definition without a script makes the example component's \<^verbatim>\<open>Init\<close> fail;
  the wrapper returned has neither the chain context nor the definition nor the configuration.
\<close>

theorem initRuleNodeCtx_Init_failure_counterexample:
  "initRuleNodeCtx example_ext example_Config (Some example_chain) [] def_no_script False =
     Return (Some zero_RuleNodeCtx, Some (Error ''jsScript missing''))
   \<and> ChainCtx zero_RuleNodeCtx \<noteq> Some example_chain
   \<and> SelfDefinition zero_RuleNodeCtx \<noteq> Some def_no_script
   \<and> SelfDefinition zero_RuleNodeCtx \<noteq> Some (def_no_script\<lparr>Configuration := Some Map.empty\<rparr>)
   \<and> config zero_RuleNodeCtx \<noteq> example_Config
   \<and> GetNodeId zero_RuleNodeCtx = Panic nil_dereference
   \<and> IsDebugMode zero_RuleNodeCtx = Panic nil_dereference"
proof -
  have "config zero_RuleNodeCtx \<noteq> example_Config"
    by (simp add: zero_RuleNodeCtx_def zero_Config_def example_Config_def)
  then show ?thesis
    by (simp add: init_no_script) (simp add: zero_RuleNodeCtx_def GetNodeId_def IsDebugMode_def)
qed


subsection \<open>Variable substitution\<close>







subsection \<open>Sub-chain delegation\<close>

text \<open>
  C8, as the code has it. On a leaf node wrapper, \<^verbatim>\<open>ReloadChild\<close> returns the error
  labelled "not support this func", whatever its arguments, and leaves the wrapper as it is.
  \<^verbatim>\<open>GetNodeById\<close> returns no node and the flag false, and leaves the wrapper as it is; it
  returns no error.
\<close>

theorem leaf_delegation_unsupported:
  "ReloadChild rn nodeId dsl = (Some (Error ''not support this func''), rn)
   \<and> fails_unsupported (ReloadChild_result rn nodeId dsl)
   \<and> GetNodeById rn nodeId = ((None, False), rn)
   \<and> GetNodeById_result rn nodeId = GoNodeFound None False"
  by (simp add: ReloadChild_def GetNodeById_def fails_unsupported_def ReloadChild_result_def
        GetNodeById_result_def)


text \<open>
  C8 as stated has \<^verbatim>\<open>GetNodeById\<close> fail with an error labelled unsupported. What it hands
  back is nil and false.
\<close>

theorem GetNodeById_unsupported_counterexample:
  "GetNodeById_result example_wrapper ''s2'' = GoNodeFound None False
   \<and> \<not> fails_unsupported (GetNodeById_result example_wrapper ''s2'')"
  by (simp add: GetNodeById_def fails_unsupported_def GetNodeById_result_def)


section \<open>Properties of the components\<close>

lemma SshNode_OnMsg_cases:
  "(\<exists>m e. SshNode_OnMsg X x msg = [TellFailure m e]) \<or> (\<exists>m. SshNode_OnMsg X x msg = [TellSuccess m])"
  by (simp add: SshNode_OnMsg_def Let_def split: option.split sum.split prod.split)

lemma MqttClientNode_OnMsg_cases:
  "(\<exists>e. MqttClientNode_OnMsg Y y msg = [TellFailure msg e])
   \<or> MqttClientNode_OnMsg Y y msg = [TellSuccess msg]"
  by (simp add: MqttClientNode_OnMsg_def Let_def split: option.split sum.split)


text \<open>
  C7. Every call of \<^verbatim>\<open>OnMsg\<close> on the SSH node and on the MQTT client node, whatever the
  client, the configuration, the message and the answers of the libraries, calls exactly one
  of \<^verbatim>\<open>TellSuccess\<close> and \<^verbatim>\<open>TellFailure\<close>, once.
\<close>

theorem OnMsg_tells_exactly_once:
  "length (SshNode_OnMsg X x msg) = 1 \<and> length (MqttClientNode_OnMsg Y y msg) = 1"
  using SshNode_OnMsg_cases[of X x msg] MqttClientNode_OnMsg_cases[of Y y msg]
  by auto


section \<open>Properties of the HTTP endpoint\<close>

subsection \<open>One step of registration\<close>

declare addRouter_loop.simps [simp del]

lemma RouterKey_not_empty: "RouterKey method path \<noteq> []"
  by (simp add: RouterKey_def)

lemma set_route_simps:
  "GetId (set_route m path r) = (if GetId r = [] then RouterKey m path else GetId r)"
  "GetParams (set_route m path r) = [m]"
  "GetFrom (set_route m path r) = GetFrom r"
  "IsDisable (set_route m path r) = IsDisable r"
  by (simp_all add: set_route_def Let_def)

lemma set_route_id_not_empty: "GetId (set_route m path r) \<noteq> []"
  by (simp add: set_route_simps RouterKey_not_empty)

lemma addRouter_loop_nil_storage:
  "RouterStorage f = None \<Longrightarrow>
   addRouter_loop X m (item # rs) h (Rest f p) =
     (Panic nil_map_write, h(item := set_route m (TrimSpace (FromToString (h item))) (h item)), Rest f p)"
  by (simp add: addRouter_loop.simps Let_def)

lemma addRouter_loop_pool_error:
  "RouterStorage f = Some st \<Longrightarrow> InstanceId f \<noteq> [] \<Longrightarrow>
   addRouter_loop X m (item # rs) h (Rest f (Inl err)) =
     (Return (Some err), h(item := set_route m (TrimSpace (FromToString (h item))) (h item)),
      Rest (f\<lparr>RouterStorage := Some (st(GetId (set_route m (TrimSpace (FromToString (h item))) (h item)) \<mapsto> item))\<rparr>) (Inl err))"
  by (simp add: addRouter_loop.simps Let_def)

lemma addRouter_loop_pooled:
  "RouterStorage f = Some st \<Longrightarrow> InstanceId f \<noteq> [] \<Longrightarrow>
   addRouter_loop X (ToUpper m) [item]
     (h(item := set_route m (TrimSpace (FromToString (h item))) (h item))) (init_storage shared)
     = (res, h2, shared') \<Longrightarrow>
   addRouter_loop X m (item # rs) h (Rest f (Inr shared)) =
     (res, h2,
      Rest (f\<lparr>RouterStorage := Some (st(GetId (set_route m (TrimSpace (FromToString (h item))) (h item)) \<mapsto> item))\<rparr>) (Inr shared'))"
  by (simp add: addRouter_loop.simps Let_def)

lemma addRouter_loop_own_panic:
  "RouterStorage f = Some st \<Longrightarrow> InstanceId f = [] \<Longrightarrow>
   register_handle X m (TrimSpace (FromToString (h item))) item
      (set_route m (TrimSpace (FromToString (h item))) (h item))
      (f\<lparr>RouterStorage := Some (st(GetId (set_route m (TrimSpace (FromToString (h item))) (h item)) \<mapsto> item))\<rparr>)
     = (Some e, f2) \<Longrightarrow>
   addRouter_loop X m (item # rs) h (Rest f p) =
     (Panic e, h(item := set_route m (TrimSpace (FromToString (h item))) (h item)), Rest f2 p)"
  by (simp add: addRouter_loop.simps Let_def)

lemma addRouter_loop_own_next:
  "RouterStorage f = Some st \<Longrightarrow> InstanceId f = [] \<Longrightarrow>
   register_handle X m (TrimSpace (FromToString (h item))) item
      (set_route m (TrimSpace (FromToString (h item))) (h item))
      (f\<lparr>RouterStorage := Some (st(GetId (set_route m (TrimSpace (FromToString (h item))) (h item)) \<mapsto> item))\<rparr>)
     = (None, f2) \<Longrightarrow>
   addRouter_loop X m (item # rs) h (Rest f p) =
     addRouter_loop X m rs (h(item := set_route m (TrimSpace (FromToString (h item))) (h item))) (Rest f2 p)"
  by (simp add: addRouter_loop.simps Let_def)

lemma register_handle_keeps:
  "register_handle X m path item r f = (e, f2) \<Longrightarrow>
     RouterStorage f2 = RouterStorage f \<and> InstanceId f2 = InstanceId f \<and> started f2 = started f
     \<and> Server f2 = Server f \<and> IsInit f2 = IsInit f"
  by (auto simp: register_handle_def Let_def newRouter_def split: option.splits if_splits)


lemma init_storage_fields:
  "RouterStorage (rest_fields (init_storage R)) =
     Some (case RouterStorage (rest_fields R) of None \<Rightarrow> Map.empty | Some st \<Rightarrow> st)"
  "InstanceId (rest_fields (init_storage R)) = InstanceId (rest_fields R)"
  "router (rest_fields (init_storage R)) = router (rest_fields R)"
  "rest_pool (init_storage R) = rest_pool R"
  by (cases R; simp split: option.splits)+

lemma set_route_twice:
  "GetId (set_route m' path' (set_route m path r)) = GetId (set_route m path r)"
  "GetFrom (set_route m' path' (set_route m path r)) = GetFrom r"
  "IsDisable (set_route m' path' (set_route m path r)) = IsDisable r"
  by (simp_all add: set_route_simps RouterKey_not_empty)

lemma addRouter_loop_single:
  "RouterStorage (rest_fields R) = Some st \<Longrightarrow> addRouter_loop X m [item] h R = (res, h', R') \<Longrightarrow>
     GetId (h' item) = GetId (set_route m (TrimSpace (FromToString (h item))) (h item))
     \<and> GetFrom (h' item) = GetFrom (h item)
     \<and> IsDisable (h' item) = IsDisable (h item)
     \<and> (\<forall>b. b \<noteq> item \<longrightarrow> h' b = h b)
     \<and> RouterStorage (rest_fields R') =
         Some (st(GetId (set_route m (TrimSpace (FromToString (h item))) (h item)) \<mapsto> item))
     \<and> InstanceId (rest_fields R') = InstanceId (rest_fields R)"
proof (induction R arbitrary: st m h res h' R' rule: measure_induct_rule[where f = size])
  case (less R)
  obtain f p where R: "R = Rest f p" by (cases R)
  let ?path = "TrimSpace (FromToString (h item))"
  let ?r = "set_route m ?path (h item)"
  let ?h1 = "h(item := ?r)"
  let ?f1 = "f\<lparr>RouterStorage := Some (st(GetId ?r \<mapsto> item))\<rparr>"
  from less.prems R have st: "RouterStorage f = Some st" by simp
  show ?case
  proof (cases "InstanceId f = []")
    case True
    obtain e f2 where reg: "register_handle X m ?path item ?r ?f1 = (e, f2)"
      by (cases "register_handle X m ?path item ?r ?f1")
    from register_handle_keeps[OF reg]
    have keeps: "RouterStorage f2 = Some (st(GetId ?r \<mapsto> item))" "InstanceId f2 = InstanceId f"
      by simp_all
    have "(res, h', R') = (case e of Some v \<Rightarrow> (Panic v, ?h1, Rest f2 p)
                                   | None \<Rightarrow> (Return None, ?h1, Rest f2 p))"
    proof (cases e)
      case None
      with reg st True less.prems(2) R show ?thesis
        by (simp add: addRouter_loop_own_next addRouter_loop.simps(1))
    next
      case (Some v)
      with reg st True less.prems(2) R show ?thesis
        by (simp add: addRouter_loop_own_panic)
    qed
    then have "h' = ?h1" "R' = Rest f2 p"
      by (simp_all split: option.splits)
    with keeps R show ?thesis
      by (simp add: set_route_simps(3,4) fun_upd_def)
  next
    case False
    show ?thesis
    proof (cases p)
      case (Inl err)
      with st False less.prems(2) R show ?thesis
        by (auto simp: addRouter_loop_pool_error set_route_simps(3,4) fun_upd_def)
    next
      case (Inr shared)
      obtain res2 h2 shared' where
        rec: "addRouter_loop X (ToUpper m) [item] ?h1 (init_storage shared) = (res2, h2, shared')"
        by (cases "addRouter_loop X (ToUpper m) [item] ?h1 (init_storage shared)")
      have smaller: "size (init_storage shared) < size R"
        using R Inr by (simp add: size_init_storage)
      from less.IH[OF smaller init_storage_fields(1) rec]
      have ih: "GetId (h2 item) =
                  GetId (set_route (ToUpper m) (TrimSpace (FromToString (?h1 item))) (?h1 item))"
        "GetFrom (h2 item) = GetFrom (?h1 item)"
        "IsDisable (h2 item) = IsDisable (?h1 item)"
        "\<forall>b. b \<noteq> item \<longrightarrow> h2 b = ?h1 b"
        by simp_all
      from addRouter_loop_pooled[OF st False rec] less.prems(2) R Inr
      have "h' = h2" "R' = Rest ?f1 (Inr shared')" by simp_all
      with ih R show ?thesis
        by (simp add: set_route_twice set_route_simps(3,4) fun_upd_def)
    qed
  qed
qed


lemma upper_char_idem: "upper_char (upper_char c) = upper_char c"
proof (cases "map_of (zip ''abcdefghijklmnopqrstuvwxyz'' ''ABCDEFGHIJKLMNOPQRSTUVWXYZ'') c")
  case None
  then show ?thesis by (simp add: upper_char_def)
next
  case (Some u)
  then have "(c, u) \<in> set (zip ''abcdefghijklmnopqrstuvwxyz'' ''ABCDEFGHIJKLMNOPQRSTUVWXYZ'')"
    by (rule map_of_SomeD)
  then have "u \<in> set ''ABCDEFGHIJKLMNOPQRSTUVWXYZ''"
    by (rule set_zip_rightD)
  then have "u \<notin> set ''abcdefghijklmnopqrstuvwxyz''"
    by auto
  moreover have "length ''abcdefghijklmnopqrstuvwxyz'' = length ''ABCDEFGHIJKLMNOPQRSTUVWXYZ''"
    by simp
  ultimately
  have "map_of (zip ''abcdefghijklmnopqrstuvwxyz'' ''ABCDEFGHIJKLMNOPQRSTUVWXYZ'') u = None"
    by (simp only: map_of_zip_is_None not_False_eq_True)
  with Some show ?thesis by (simp add: upper_char_def)
qed

lemma ToUpper_idem: "ToUpper (ToUpper s) = ToUpper s"
  by (simp add: ToUpper_def upper_char_idem)

lemma ToUpper_GET: "ToUpper ''GET'' = ''GET''"
  by (simp add: ToUpper_def upper_char_def)

lemma register_handle_own:
  "router f = Some hs \<Longrightarrow>
   register_handle X m path item r f =
     (case Handle_panic X hs m (convertPathParams path) of
        Some e \<Rightarrow> (Some e, f)
      | None \<Rightarrow> (None, f\<lparr>router := Some (hs @
           [\<lparr>h_method = m, h_path = convertPathParams path, h_router = item,
             h_isWait = item_isWait r\<rparr>])\<rparr>))"
  by (simp add: register_handle_def Let_def split: option.split)
lemma AddRouter_own:
  assumes "InstanceId g = []" "RouterStorage g = Some m" "router g = Some hs"
    and "params \<noteq> []" "GetId (h a) \<noteq> []"
  shows "AddRouter X h (Rest g p) (Some a) params =
     (case Handle_panic X hs (ToUpper (hd params))
             (convertPathParams (TrimSpace (FromToString (h a)))) of
        Some e \<Rightarrow>
          (([], Some (Error (''addRouter err :'' @ e))),
           h(a := (h a)\<lparr>GetParams := [ToUpper (hd params)]\<rparr>),
           Rest (g\<lparr>RouterStorage := Some (m(GetId (h a) \<mapsto> a))\<rparr>) p)
      | None \<Rightarrow>
          ((GetId (h a), None),
           h(a := (h a)\<lparr>GetParams := [ToUpper (hd params)]\<rparr>),
           Rest (g\<lparr>RouterStorage := Some (m(GetId (h a) \<mapsto> a)),
                   router := Some (hs @
                     [\<lparr>h_method = ToUpper (hd params),
                       h_path = convertPathParams (TrimSpace (FromToString (h a))),
                       h_router = a, h_isWait = item_isWait (h a)\<rparr>])\<rparr>) p))"
proof -
  let ?m = "ToUpper (hd params)"
  let ?path = "TrimSpace (FromToString (h a))"
  have r: "set_route ?m ?path (h a) = (h a)\<lparr>GetParams := [?m]\<rparr>"
    using assms(5) by (simp add: set_route_def)
  have isw: "item_isWait ((h a)\<lparr>GetParams := [?m]\<rparr>) = item_isWait (h a)"
    by (simp add: item_isWait_def)
  have init: "init_storage (Rest g p) = Rest g p"
    using assms(2) by simp
  let ?g1 = "g\<lparr>RouterStorage := Some (m(GetId (h a) \<mapsto> a))\<rparr>"
  have reg: "register_handle X ?m ?path a ((h a)\<lparr>GetParams := [?m]\<rparr>) ?g1 =
     (case Handle_panic X hs ?m (convertPathParams ?path) of
        Some e \<Rightarrow> (Some e, ?g1)
      | None \<Rightarrow> (None, ?g1\<lparr>router := Some (hs @
           [\<lparr>h_method = ?m, h_path = convertPathParams ?path, h_router = a,
             h_isWait = item_isWait (h a)\<rparr>])\<rparr>))"
    using assms(3) by (simp add: register_handle_own isw split: option.split)
  show ?thesis
  proof (cases "Handle_panic X hs ?m (convertPathParams ?path)")
    case None
    with reg have "register_handle X ?m ?path a (set_route ?m ?path (h a))
        (g\<lparr>RouterStorage := Some (m(GetId (set_route ?m ?path (h a)) \<mapsto> a))\<rparr>) =
       (None, ?g1\<lparr>router := Some (hs @
           [\<lparr>h_method = ?m, h_path = convertPathParams ?path, h_router = a,
             h_isWait = item_isWait (h a)\<rparr>])\<rparr>)"
      by (simp add: r)
    from addRouter_loop_own_next[where h = h and item = a and rs = "[]" and p = p,
        OF assms(2) assms(1) this] None assms(4)
    show ?thesis
      by (simp add: AddRouter_def addRouter_def assms(2) ToUpper_idem r addRouter_loop.simps(1))
  next
    case (Some e)
    with reg have "register_handle X ?m ?path a (set_route ?m ?path (h a))
        (g\<lparr>RouterStorage := Some (m(GetId (set_route ?m ?path (h a)) \<mapsto> a))\<rparr>) =
       (Some e, ?g1)"
      by (simp add: r)
    from addRouter_loop_own_panic[where h = h and item = a and rs = "[]" and p = p,
        OF assms(2) assms(1) this] Some assms(4)
    show ?thesis
      by (simp add: AddRouter_def addRouter_def assms(2) ToUpper_idem r)
  qed
qed


text \<open>
  Registration keeps the storage keyed by the ids of the stored routes, which is what the
  replay of \<^verbatim>\<open>Restart\<close> relies on.
\<close>

lemma addRouter_keeps_ids:
  assumes call: "addRouter X method [item] h R = (res, h', R')"
    and inv: "\<forall>st k a. RouterStorage (rest_fields R) = Some st \<and> st k = Some a
                \<longrightarrow> GetId (h a) = k \<and> k \<noteq> []"
  shows "\<exists>st'. RouterStorage (rest_fields R') = Some st'
           \<and> (\<forall>k a. st' k = Some a \<longrightarrow> GetId (h' a) = k \<and> k \<noteq> [])"
proof -
  define st0 where
    "st0 = (case RouterStorage (rest_fields R) of None \<Rightarrow> Map.empty | Some st \<Rightarrow> st)"
  define key where
    "key = GetId (set_route (ToUpper method) (TrimSpace (FromToString (h item))) (h item))"
  from call have loop: "addRouter_loop X (ToUpper method) [item] h (init_storage R) = (res, h', R')"
    by (simp add: addRouter_def)
  have st: "RouterStorage (rest_fields (init_storage R)) = Some st0"
    unfolding st0_def by (rule init_storage_fields(1))
  from addRouter_loop_single[OF st loop]
  have id: "GetId (h' item) = key"
    and frame: "\<forall>b. b \<noteq> item \<longrightarrow> h' b = h b"
    and stored: "RouterStorage (rest_fields R') = Some (st0(key \<mapsto> item))"
    unfolding key_def by simp_all
  have key_ne: "key \<noteq> []"
    unfolding key_def by (rule set_route_id_not_empty)
  have key_old: "key = GetId (h item)" if "GetId (h item) \<noteq> []"
    using that by (simp add: key_def set_route_simps)
  have inv0: "GetId (h a) = k \<and> k \<noteq> []" if "st0 k = Some a" for k a
    using that inv by (cases "RouterStorage (rest_fields R)") (auto simp: st0_def)
  have "GetId (h' a) = k \<and> k \<noteq> []" if hit: "(st0(key \<mapsto> item)) k = Some a" for k a
  proof (cases "k = key")
    case True
    with hit have "a = item" by simp
    with id True key_ne show ?thesis by simp
  next
    case False
    with hit have old: "st0 k = Some a" by simp
    from inv0[OF old] have ka: "GetId (h a) = k" "k \<noteq> []" by simp_all
    have "a \<noteq> item"
    proof
      assume "a = item"
      with ka key_old have "key = k" by simp
      with False show False by simp
    qed
    with frame ka show ?thesis by simp
  qed
  with stored show ?thesis by blast
qed

subsection \<open>Restart\<close>

lemma replay_step:
  assumes "InstanceId g = []" "RouterStorage g = Some m" "router g = Some hs"
    and "GetId (h a) \<noteq> []" "m (GetId (h a)) = None"
  shows "replay X (a # rs) h (Rest g p) =
     (case Handle_panic X hs (replay_method (h a))
             (convertPathParams (TrimSpace (FromToString (h a)))) of
        Some e \<Rightarrow>
          (case replay X rs (h(a := (h a)\<lparr>GetParams := [replay_method (h a)]\<rparr>))
                  (Rest (g\<lparr>RouterStorage := Some (m(GetId (h a) \<mapsto> a))\<rparr>) p) of
             (logged, h3, R3) \<Rightarrow>
               ((FromToString (h a), Error (''addRouter err :'' @ e)) # logged, h3, R3))
      | None \<Rightarrow>
          replay X rs (h(a := (h a)\<lparr>GetParams := [replay_method (h a)]\<rparr>))
            (Rest (g\<lparr>RouterStorage := Some (m(GetId (h a) \<mapsto> a)),
                     router := Some (hs @ [replay_handle (h a) a])\<rparr>) p))"
proof -
  let ?h1 = "if length (GetParams (h a)) = 0
             then h(a := (h a)\<lparr>GetParams := [''GET'']\<rparr>) else h"
  have id1: "GetId (?h1 a) = GetId (h a)" by simp
  have from1: "FromToString (?h1 a) = FromToString (h a)"
    by (simp add: FromToString_def)
  have wait1: "item_isWait (?h1 a) = item_isWait (h a)"
    by (simp add: item_isWait_def)
  have params1: "GetParams (?h1 a) \<noteq> []" by simp
  have meth1: "ToUpper (hd (GetParams (?h1 a))) = replay_method (h a)"
    by (simp add: replay_method_def)
  have upd1: "?h1(a := (?h1 a)\<lparr>GetParams := [replay_method (h a)]\<rparr>)
      = h(a := (h a)\<lparr>GetParams := [replay_method (h a)]\<rparr>)"
    by simp
  have from2: "FromToString ((h(a := (h a)\<lparr>GetParams := [replay_method (h a)]\<rparr>)) a)
      = FromToString (h a)"
    by (simp add: FromToString_def)
  have has: "\<not> HasRouter (Rest g p) (GetId (?h1 a))"
    by (subst id1) (simp add: assms(2,5))
  have nonempty: "GetId (?h1 a) \<noteq> []"
    by (subst id1) (rule assms(4))
  note add = AddRouter_own[where h = ?h1 and a = a and X = X and p = p,
      OF assms(1,2,3) params1 nonempty, unfolded id1 from1 wait1 meth1 upd1]
  have "replay X (a # rs) h (Rest g p) =
      (case AddRouter X ?h1 (Rest g p) (Some a) (GetParams (?h1 a)) of
              ((_, Some err), h2, R2) \<Rightarrow>
                (case replay X rs h2 R2 of
                   (logged, h3, R3) \<Rightarrow> ((FromToString (h2 a), err) # logged, h3, R3))
            | ((_, None), h2, R2) \<Rightarrow> replay X rs h2 R2)"
    by (simp only: replay.simps Let_def has if_True not_False_eq_True)
  also have "\<dots> =
     (case Handle_panic X hs (replay_method (h a))
             (convertPathParams (TrimSpace (FromToString (h a)))) of
        Some e \<Rightarrow>
          (case replay X rs (h(a := (h a)\<lparr>GetParams := [replay_method (h a)]\<rparr>))
                  (Rest (g\<lparr>RouterStorage := Some (m(GetId (h a) \<mapsto> a))\<rparr>) p) of
             (logged, h3, R3) \<Rightarrow>
               ((FromToString (h a), Error (''addRouter err :'' @ e)) # logged, h3, R3))
      | None \<Rightarrow>
          replay X rs (h(a := (h a)\<lparr>GetParams := [replay_method (h a)]\<rparr>))
            (Rest (g\<lparr>RouterStorage := Some (m(GetId (h a) \<mapsto> a)),
                     router := Some (hs @ [replay_handle (h a) a])\<rparr>) p))"
    by (simp only: add) (simp add: FromToString_def replay_handle_def split: option.split prod.split)
  finally show ?thesis .
qed
lemma replay_post_Nil: "replay_post h m [] [] h m []"
  by (simp add: replay_post_def)

lemma replay_post_Cons:
  assumes h2_def: "h2 = h(a := (h a)\<lparr>GetParams := [replay_method (h a)]\<rparr>)"
    and m2_def: "m2 = m(GetId (h a) \<mapsto> a)"
    and notin: "a \<notin> set rs"
    and other: "\<forall>b\<in>set rs. GetId (h b) \<noteq> GetId (h a)"
    and post: "replay_post h2 m2 rs logged h' m' hs'"
    and cases: "(hs'' = replay_handle (h a) a # hs' \<and> logged' = logged)
                \<or> (hs'' = hs' \<and> logged' = (FromToString (h a), Error (''addRouter err :'' @ e)) # logged)"
  shows "replay_post h m (a # rs) logged' h' m' hs''"
proof -
  have same: "h2 b = h b" if "b \<in> set rs" for b
    using that notin by (auto simp: h2_def)
  have h2a: "h2 a = (h a)\<lparr>GetParams := [replay_method (h a)]\<rparr>"
    by (simp add: h2_def)
  have out: "h2 b = h b" if "b \<noteq> a" for b
    using that by (simp add: h2_def)
  from post have
    stored: "\<And>b. b \<in> set rs \<Longrightarrow> m' (GetId (h2 b)) = Some b"
    and frame: "\<And>k. k \<notin> (\<lambda>b. GetId (h2 b)) ` set rs \<Longrightarrow> m' k = m2 k"
    and heap_in: "\<And>b. b \<in> set rs \<Longrightarrow> h' b = (h2 b)\<lparr>GetParams := [replay_method (h2 b)]\<rparr>"
    and heap_out: "\<And>b. b \<notin> set rs \<Longrightarrow> h' b = h2 b"
    and hdls: "\<And>x. x \<in> set hs' \<Longrightarrow> h_router x \<in> set rs \<and> x = replay_handle (h2 (h_router x)) (h_router x)"
    and each: "\<And>b. b \<in> set rs \<Longrightarrow> (\<exists>x\<in>set hs'. h_router x = b)
            \<or> (\<exists>e. (FromToString (h2 b), Error (''addRouter err :'' @ e)) \<in> set logged)"
    and count: "length hs' + length logged = length rs"
    unfolding replay_post_def by blast+
  have img: "(\<lambda>b. GetId (h2 b)) ` set rs = (\<lambda>b. GetId (h b)) ` set rs"
    using same by (intro image_cong) simp_all
  have a_not_img: "GetId (h a) \<notin> (\<lambda>b. GetId (h b)) ` set rs"
    using other by (auto simp: image_iff)
  have c1: "\<forall>b\<in>set (a # rs). m' (GetId (h b)) = Some b"
  proof
    fix b assume b: "b \<in> set (a # rs)"
    show "m' (GetId (h b)) = Some b"
    proof (cases "b = a")
      case True
      from a_not_img img have "GetId (h a) \<notin> (\<lambda>b. GetId (h2 b)) ` set rs" by simp
      then have "m' (GetId (h a)) = m2 (GetId (h a))" by (rule frame)
      then show ?thesis using True by (simp add: m2_def)
    next
      case False
      with b have brs: "b \<in> set rs" by simp
      from stored[OF brs] same[OF brs] show ?thesis by simp
    qed
  qed
  have c2: "\<forall>k. k \<notin> (\<lambda>b. GetId (h b)) ` set (a # rs) \<longrightarrow> m' k = m k"
  proof (intro allI impI)
    fix k assume k: "k \<notin> (\<lambda>b. GetId (h b)) ` set (a # rs)"
    then have k1: "k \<noteq> GetId (h a)" and k2: "k \<notin> (\<lambda>b. GetId (h b)) ` set rs"
      by simp_all
    from k2 img have "k \<notin> (\<lambda>b. GetId (h2 b)) ` set rs" by simp
    then have "m' k = m2 k" by (rule frame)
    with k1 show "m' k = m k" by (simp add: m2_def)
  qed
  have c3: "\<forall>b\<in>set (a # rs). h' b = (h b)\<lparr>GetParams := [replay_method (h b)]\<rparr>"
  proof
    fix b assume b: "b \<in> set (a # rs)"
    show "h' b = (h b)\<lparr>GetParams := [replay_method (h b)]\<rparr>"
    proof (cases "b = a")
      case True
      from heap_out[OF notin] h2a True show ?thesis by simp
    next
      case False
      with b have brs: "b \<in> set rs" by simp
      from heap_in[OF brs] same[OF brs] show ?thesis by simp
    qed
  qed
  have c4: "\<forall>b. b \<notin> set (a # rs) \<longrightarrow> h' b = h b"
  proof (intro allI impI)
    fix b assume b: "b \<notin> set (a # rs)"
    then have "b \<notin> set rs" "b \<noteq> a" by simp_all
    with heap_out[of b] out[of b] show "h' b = h b" by simp
  qed
  have old_hdl: "h_router x \<in> set (a # rs) \<and> x = replay_handle (h (h_router x)) (h_router x)"
    if "x \<in> set hs'" for x
  proof -
    from hdls[OF that] have r: "h_router x \<in> set rs"
      and x: "x = replay_handle (h2 (h_router x)) (h_router x)" by simp_all
    from same[OF r] x have "x = replay_handle (h (h_router x)) (h_router x)" by simp
    with r show ?thesis by simp
  qed
  have new_hdl: "h_router (replay_handle (h a) a) = a"
    by (simp add: replay_handle_def)
  have c5: "\<forall>x\<in>set hs''. h_router x \<in> set (a # rs)
              \<and> x = replay_handle (h (h_router x)) (h_router x)"
  proof
    fix x assume x: "x \<in> set hs''"
    from cases x have "x = replay_handle (h a) a \<or> x \<in> set hs'" by auto
    then show "h_router x \<in> set (a # rs) \<and> x = replay_handle (h (h_router x)) (h_router x)"
    proof
      assume "x = replay_handle (h a) a"
      with new_hdl show ?thesis by simp
    next
      assume "x \<in> set hs'"
      then show ?thesis by (rule old_hdl)
    qed
  qed
  have sub_hs: "set hs' \<subseteq> set hs''" and sub_log: "set logged \<subseteq> set logged'"
    using cases by auto
  have c6: "\<forall>b\<in>set (a # rs). (\<exists>x\<in>set hs''. h_router x = b)
            \<or> (\<exists>e. (FromToString (h b), Error (''addRouter err :'' @ e)) \<in> set logged')"
  proof
    fix b assume b: "b \<in> set (a # rs)"
    show "(\<exists>x\<in>set hs''. h_router x = b)
            \<or> (\<exists>e. (FromToString (h b), Error (''addRouter err :'' @ e)) \<in> set logged')"
    proof (cases "b = a")
      case True
      from cases show ?thesis
      proof
        assume "hs'' = replay_handle (h a) a # hs' \<and> logged' = logged"
        then have "replay_handle (h a) a \<in> set hs''" by simp
        with new_hdl True show ?thesis by blast
      next
        assume "hs'' = hs' \<and> logged' = (FromToString (h a), Error (''addRouter err :'' @ e)) # logged"
        then have "(FromToString (h a), Error (''addRouter err :'' @ e)) \<in> set logged'" by simp
        with True show ?thesis by blast
      qed
    next
      case False
      with b have brs: "b \<in> set rs" by simp
      from each[OF brs] same[OF brs]
      have "(\<exists>x\<in>set hs'. h_router x = b)
            \<or> (\<exists>e. (FromToString (h b), Error (''addRouter err :'' @ e)) \<in> set logged)"
        by simp
      with sub_hs sub_log show ?thesis by blast
    qed
  qed
  have c7: "length hs'' + length logged' = length (a # rs)"
    using cases count by auto
  show ?thesis
    unfolding replay_post_def
    by (intro conjI) (rule c1 c2 c3 c4 c5 c6 c7)+
qed


lemma replay_own:
  assumes "InstanceId g = []" "RouterStorage g = Some m" "router g = Some hs"
    and "distinct rs" "\<forall>a\<in>set rs. GetId (h a) \<noteq> [] \<and> m (GetId (h a)) = None"
    and "inj_on (\<lambda>a. GetId (h a)) (set rs)"
  shows "\<exists>logged h' g' m' hs'.
     replay X rs h (Rest g p) = (logged, h', Rest g' p)
     \<and> InstanceId g' = [] \<and> started g' = started g
     \<and> RouterStorage g' = Some m' \<and> router g' = Some (hs @ hs')
     \<and> replay_post h m rs logged h' m' hs'"
  using assms
proof (induction rs arbitrary: h g m hs)
  case Nil
  have "replay X [] h (Rest g p) = ([], h, Rest g p)" by simp
  moreover have "router g = Some (hs @ [])" using Nil.prems(3) by simp
  ultimately show ?case
    using Nil.prems(1,2) replay_post_Nil[of h m] by blast
next
  case (Cons a rs)
  define h2 where "h2 = h(a := (h a)\<lparr>GetParams := [replay_method (h a)]\<rparr>)"
  define m2 where "m2 = m(GetId (h a) \<mapsto> a)"
  define hp where "hp = Handle_panic X hs (replay_method (h a))
             (convertPathParams (TrimSpace (FromToString (h a))))"
  define hs2 where "hs2 = (case hp of None \<Rightarrow> hs @ [replay_handle (h a) a] | Some e \<Rightarrow> hs)"
  define g2 where "g2 = g\<lparr>RouterStorage := Some m2, router := Some hs2\<rparr>"
  from Cons.prems have a_id: "GetId (h a) \<noteq> []" and a_new: "m (GetId (h a)) = None"
    and a_notin: "a \<notin> set rs" and dist: "distinct rs"
    by simp_all
  have same: "h2 b = h b" if "b \<in> set rs" for b
    using that a_notin by (auto simp: h2_def)
  have other: "\<forall>b\<in>set rs. GetId (h b) \<noteq> GetId (h a)"
  proof
    fix b assume b: "b \<in> set rs"
    show "GetId (h b) \<noteq> GetId (h a)"
    proof
      assume "GetId (h b) = GetId (h a)"
      moreover have "b \<in> set (a # rs)" "a \<in> set (a # rs)" using b by simp_all
      ultimately have "b = a" using Cons.prems(6) by (meson inj_onD)
      with b a_notin show False by simp
    qed
  qed
  have pre5: "\<forall>b\<in>set rs. GetId (h2 b) \<noteq> [] \<and> m2 (GetId (h2 b)) = None"
  proof
    fix b assume b: "b \<in> set rs"
    from Cons.prems(5) b have "GetId (h b) \<noteq> []" "m (GetId (h b)) = None" by simp_all
    moreover from other b have "GetId (h b) \<noteq> GetId (h a)" by blast
    ultimately show "GetId (h2 b) \<noteq> [] \<and> m2 (GetId (h2 b)) = None"
      using same[OF b] by (simp add: m2_def)
  qed
  have pre6: "inj_on (\<lambda>b. GetId (h2 b)) (set rs)"
  proof (rule inj_onI)
    fix x y assume x: "x \<in> set rs" and y: "y \<in> set rs" and eq: "GetId (h2 x) = GetId (h2 y)"
    from eq same[OF x] same[OF y] have "GetId (h x) = GetId (h y)" by simp
    moreover have "x \<in> set (a # rs)" "y \<in> set (a # rs)" using x y by simp_all
    ultimately show "x = y" using Cons.prems(6) by (meson inj_onD)
  qed
  have g2: "InstanceId g2 = []" "RouterStorage g2 = Some m2" "router g2 = Some hs2"
    "started g2 = started g"
    using Cons.prems(1) by (simp_all add: g2_def)
  have g2_panic: "g\<lparr>RouterStorage := Some m2\<rparr> = g2" if "hp = Some e" for e
    using that Cons.prems(3) by (simp add: g2_def hs2_def)
  have g2_ok: "g\<lparr>RouterStorage := Some m2, router := Some (hs @ [replay_handle (h a) a])\<rparr> = g2"
    if "hp = None"
    using that by (simp add: g2_def hs2_def)
  from Cons.IH[OF g2(1,2,3) dist pre5 pre6]
  obtain logged h' g' m' hs' where
    r: "replay X rs h2 (Rest g2 p) = (logged, h', Rest g' p)"
    and own: "InstanceId g' = []"
    and started: "started g' = started g2"
    and st: "RouterStorage g' = Some m'"
    and rt: "router g' = Some (hs2 @ hs')"
    and post: "replay_post h2 m2 rs logged h' m' hs'"
    by (elim exE conjE) (rule that; assumption)
  note step = replay_step[where h = h and a = a and X = X and rs = rs and p = p,
      OF Cons.prems(1,2,3) a_id a_new, folded h2_def m2_def hp_def]
  show ?case
  proof (cases hp)
    case None
    from step None g2_ok[OF None] r
    have c1: "replay X (a # rs) h (Rest g p) = (logged, h', Rest g' p)" by simp
    from rt None have c2: "router g' = Some (hs @ (replay_handle (h a) a # hs'))"
      by (simp add: hs2_def)
    have c3: "replay_post h m (a # rs) logged h' m' (replay_handle (h a) a # hs')"
      by (rule replay_post_Cons[OF h2_def m2_def a_notin other post]) simp
    have c4: "started g' = started g" using started g2(4) by simp
    show ?thesis
      by (intro exI conjI) (rule c1 own c4 st c2 c3)+
  next
    case (Some e)
    from step Some g2_panic[OF Some] r
    have c1: "replay X (a # rs) h (Rest g p) =
        ((FromToString (h a), Error (''addRouter err :'' @ e)) # logged, h', Rest g' p)"
      by simp
    from rt Some have c2: "router g' = Some (hs @ hs')"
      by (simp add: hs2_def)
    have c3: "replay_post h m (a # rs)
        ((FromToString (h a), Error (''addRouter err :'' @ e)) # logged) h' m' hs'"
      by (rule replay_post_Cons[OF h2_def m2_def a_notin other post]) simp
    have c4: "started g' = started g" using started g2(4) by simp
    show ?thesis
      by (intro exI conjI) (rule c1 own c4 st c2 c3)+
  qed
qed


lemma Listen_cong:
  "Server f = Server g \<Longrightarrow> Config_CertFile f = Config_CertFile g
   \<Longrightarrow> Config_CertKeyFile f = Config_CertKeyFile g \<Longrightarrow> Listen X f = Listen X g"
  by (simp add: Listen_def)

lemma Start_own:
  assumes "InstanceId g = []" "\<not> started g"
  shows "\<exists>g'. Start X (Rest g p) = (Listen X (g\<lparr>Server := Some (Config_Server g)\<rparr>), Rest g' p)
     \<and> InstanceId g' = [] \<and> RouterStorage g' = RouterStorage g
     \<and> router g' = Some (case router g of None \<Rightarrow> [] | Some hs \<Rightarrow> hs)
     \<and> started g' = (Listen X (g\<lparr>Server := Some (Config_Server g)\<rparr>) = None)"
proof -
  define g1 where "g1 = initServer (snd (checkIsInitSharedNode g))"
  have g1: "InstanceId g1 = []" "\<not> started g1" "RouterStorage g1 = RouterStorage g"
    "router g1 = Some (case router g of None \<Rightarrow> [] | Some hs \<Rightarrow> hs)"
    "Config_Server g1 = Config_Server g" "Config_CertFile g1 = Config_CertFile g"
    "Config_CertKeyFile g1 = Config_CertKeyFile g"
    using assms
    by (auto simp: g1_def initServer_def checkIsInitSharedNode_def newRouter_def
          split: option.splits)
  have start: "Start X (Rest g p) = (case startServer X g1 of (e, g2) \<Rightarrow> (e, Rest g2 p))"
    using assms(1) by (simp add: g1_def checkIsInitSharedNode_def)
  have lis: "Listen X (g1\<lparr>Server := Some (Config_Server g1)\<rparr>)
      = Listen X (g\<lparr>Server := Some (Config_Server g)\<rparr>)"
    by (rule Listen_cong) (simp_all add: g1)
  show ?thesis
  proof (cases "Listen X (g\<lparr>Server := Some (Config_Server g)\<rparr>)")
    case None
    with lis g1(2) have "startServer X g1
        = (None, g1\<lparr>Server := Some (Config_Server g1), started := True\<rparr>)"
      by (simp add: startServer_def Let_def)
    with start None g1 show ?thesis by simp
  next
    case (Some err)
    with lis g1(2) have "startServer X g1 = (Some err, g1\<lparr>Server := Some (Config_Server g1)\<rparr>)"
      by (simp add: startServer_def Let_def)
    with start Some g1 show ?thesis by simp
  qed
qed

lemma enabled_routes_cong:
  "RouterStorage f = RouterStorage g \<Longrightarrow> enabled_routes h f = enabled_routes h g"
  by (simp add: enabled_routes_def)

lemma set_map_filter_range:
  assumes "set ks = dom m"
  shows "set (List.map_filter m ks) = ran m"
proof
  show "set (List.map_filter m ks) \<subseteq> ran m"
    by (auto simp: List.map_filter_def ran_def)
  show "ran m \<subseteq> set (List.map_filter m ks)"
  proof
    fix a assume "a \<in> ran m"
    then obtain k where k: "m k = Some a" by (auto simp: ran_def)
    with assms have "k \<in> set ks" by auto
    with k show "a \<in> set (List.map_filter m ks)"
      by (force simp: List.map_filter_def image_iff)
  qed
qed

lemma distinct_map_filter:
  assumes "distinct ks" and inj: "\<And>k k' a. m k = Some a \<Longrightarrow> m k' = Some a \<Longrightarrow> k = k'"
  shows "distinct (List.map_filter m ks)"
  using assms(1)
proof (induction ks)
  case Nil
  then show ?case by (simp add: List.map_filter_def)
next
  case (Cons k ks)
  show ?case
  proof (cases "m k")
    case None
    with Cons show ?thesis by (simp add: List.map_filter_def)
  next
    case (Some a)
    have "a \<notin> set (List.map_filter m ks)"
    proof
      assume "a \<in> set (List.map_filter m ks)"
      then obtain k' where "k' \<in> set ks" "m k' = Some a"
        by (auto simp: List.map_filter_def)
      with inj[OF Some] Cons.prems show False by auto
    qed
    with Some Cons have "distinct (a # List.map_filter m ks)" by simp
    with Some show ?thesis by (simp add: List.map_filter_def)
  qed
qed


lemma replay_post_empty_storage:
  assumes post: "replay_post h Map.empty rs logged h' m' hs'"
    and rs: "set rs = ran old"
    and ids: "\<forall>k a. old k = Some a \<longrightarrow> GetId (h a) = k \<and> k \<noteq> []"
  shows "m' = old"
proof
  fix k
  from post have stored: "\<And>a. a \<in> set rs \<Longrightarrow> m' (GetId (h a)) = Some a"
    and frame: "\<And>k. k \<notin> (\<lambda>a. GetId (h a)) ` set rs \<Longrightarrow> m' k = None"
    unfolding replay_post_def by simp_all
  show "m' k = old k"
  proof (cases "old k")
    case (Some a)
    then have "a \<in> set rs" using rs by (auto simp: ran_def)
    moreover from Some ids have "GetId (h a) = k" by blast
    ultimately show ?thesis using stored Some by force
  next
    case None
    have "k \<notin> (\<lambda>a. GetId (h a)) ` set rs"
    proof
      assume "k \<in> (\<lambda>a. GetId (h a)) ` set rs"
      then obtain a where a: "a \<in> set rs" "k = GetId (h a)" by auto
      with rs obtain k' where "old k' = Some a" by (auto simp: ran_def)
      with ids a(2) have "old k = Some a" by force
      with None show False by simp
    qed
    with frame None show ?thesis by simp
  qed
qed

text \<open>An endpoint that refers to a pooled instance hands the restart over to it.\<close>

lemma Restart_pooled:
  "InstanceId f \<noteq> [] \<Longrightarrow> Restart X h (Rest f (Inl err)) = (Some err, [], h, Rest f (Inl err))"
  "InstanceId f \<noteq> [] \<Longrightarrow>
     Restart X h (Rest f (Inr shared)) =
       (case Restart X h shared of
          (e, logged, h', shared') \<Rightarrow> (e, logged, h', Rest f (Inr shared')))"
  by simp_all

text \<open>
  C3. For an endpoint that owns its server, whose enabled routes are stored under their
  non-empty ids, and for any order in which the range yields the enabled routes:
  \<^verbatim>\<open>Restart\<close> returns the error of opening the listener, and nothing else. When the listener
  opens, the endpoint is started again with a router that holds only handles registered by
  the replay; the storage holds exactly the routes that were enabled before (the disabled ones
  are gone); each of these was replayed with its first recorded parameter, or with GET when
  none was recorded, upper-cased; each is either registered on the new router or its failure
  is logged, and a failure does not fail the restart; no other route object changes.
\<close>

theorem Restart_replays_enabled_routes:
  assumes own: "InstanceId f = []"
    and ids: "\<forall>k a. enabled_routes h f k = Some a \<longrightarrow> GetId (h a) = k \<and> k \<noteq> []"
    and order: "distinct (range_order X (enabled_routes h f))
                \<and> set (range_order X (enabled_routes h f)) = dom (enabled_routes h f)"
  shows "\<exists>logged h' f' hs'.
     Restart X h (Rest f p)
       = (Listen X (f\<lparr>Server := Some (Config_Server f)\<rparr>), logged, h', Rest f' p)
     \<and> (Listen X (f\<lparr>Server := Some (Config_Server f)\<rparr>) \<noteq> None \<longrightarrow> logged = [] \<and> h' = h)
     \<and> (Listen X (f\<lparr>Server := Some (Config_Server f)\<rparr>) = None \<longrightarrow>
           started f' \<and> InstanceId f' = []
           \<and> RouterStorage f' = Some (enabled_routes h f)
           \<and> router f' = Some hs'
           \<and> (\<forall>x\<in>set hs'. h_router x \<in> ran (enabled_routes h f)
                 \<and> x = replay_handle (h (h_router x)) (h_router x))
           \<and> (\<forall>a\<in>ran (enabled_routes h f).
                 (\<exists>x\<in>set hs'. h_router x = a)
                 \<or> (\<exists>e. (FromToString (h a), Error (''addRouter err :'' @ e)) \<in> set logged))
           \<and> length hs' + length logged = length (range_order X (enabled_routes h f))
           \<and> (\<forall>a\<in>ran (enabled_routes h f).
                 h' a = (h a)\<lparr>GetParams := [replay_method (h a)]\<rparr>
                 \<and> (GetParams (h a) = [] \<longrightarrow> GetParams (h' a) = [''GET'']))
           \<and> (\<forall>b. b \<notin> ran (enabled_routes h f) \<longrightarrow> h' b = h b))"
proof -
  define old where "old = enabled_routes h f"
  define rs where "rs = List.map_filter old (range_order X old)"
  define f1 where "f1 = (if router f \<noteq> None then newRouter f else f)"
  define f2 where "f2 = f1\<lparr>RouterStorage := Some Map.empty, started := False\<rparr>"
  define lis where "lis = Listen X (f\<lparr>Server := Some (Config_Server f)\<rparr>)"
  have f1: "RouterStorage f1 = RouterStorage f" "InstanceId f1 = []"
    "Config_Server f1 = Config_Server f" "Config_CertFile f1 = Config_CertFile f"
    "Config_CertKeyFile f1 = Config_CertKeyFile f"
    "(case router f1 of None \<Rightarrow> [] | Some hs \<Rightarrow> hs) = []"
    using own by (auto simp: f1_def newRouter_def)
  have old1: "enabled_routes h f1 = old"
    unfolding old_def by (rule enabled_routes_cong) (rule f1(1))
  have f2: "InstanceId f2 = []" "\<not> started f2" "RouterStorage f2 = Some Map.empty"
    "(case router f2 of None \<Rightarrow> [] | Some hs \<Rightarrow> hs) = []"
    using f1 by (simp_all add: f2_def)
  have lis2: "Listen X (f2\<lparr>Server := Some (Config_Server f2)\<rparr>) = lis"
    unfolding lis_def by (rule Listen_cong) (simp_all add: f2_def f1)
  from Start_own[OF f2(1,2), of X p] obtain g where
    start: "Start X (Rest f2 p) = (lis, Rest g p)"
    and g: "InstanceId g = []" "RouterStorage g = Some Map.empty" "router g = Some []"
      "started g = (lis = None)"
    unfolding lis2 f2(3,4) by blast
  have unfold: "Restart X h (Rest f p) =
      (case Start X (Rest f2 p) of
         (Some err, R3) \<Rightarrow> (Some err, [], h, R3)
       | (None, R3) \<Rightarrow> (case replay X rs h R3 of (logged, h', R4) \<Rightarrow> (None, logged, h', R4)))"
    apply (subst Restart.simps)
    apply (simp only: own simp_thms if_False Let_def)
    apply (simp only: f1_def[symmetric])
    apply (simp only: old1 f2_def[symmetric])
    apply (simp only: rs_def[symmetric])
    done
  show ?thesis
  proof (cases lis)
    case (Some err)
    with unfold start have "Restart X h (Rest f p) = (lis, [], h, Rest g p)" by simp
    with Some show ?thesis
      unfolding lis_def[symmetric] by (intro exI[of _ "[]"] exI[of _ h] exI[of _ g]) simp
  next
    case None
    from order have dist: "distinct (range_order X old)"
      and dom: "set (range_order X old) = dom old"
      unfolding old_def by simp_all
    from ids have ids': "\<forall>k a. old k = Some a \<longrightarrow> GetId (h a) = k \<and> k \<noteq> []"
      unfolding old_def .
    have rs_set: "set rs = ran old"
      unfolding rs_def by (rule set_map_filter_range[OF dom])
    have rs_dist: "distinct rs"
      unfolding rs_def
    proof (rule distinct_map_filter[OF dist])
      fix k k' a assume "old k = Some a" "old k' = Some a"
      with ids' have "GetId (h a) = k" "GetId (h a) = k'" by blast+
      then show "k = k'" by simp
    qed
    have rs_len: "length rs = length (range_order X old)"
    proof -
      have "filter (\<lambda>k. old k \<noteq> None) (range_order X old) = range_order X old"
        using dom by (intro filter_True) auto
      then show ?thesis
        unfolding rs_def List.map_filter_def
        by (simp add: comp_def)
    qed
    have pre5: "\<forall>a\<in>set rs. GetId (h a) \<noteq> [] \<and> Map.empty (GetId (h a)) = None"
    proof
      fix a assume "a \<in> set rs"
      with rs_set obtain k where "old k = Some a" by (auto simp: ran_def)
      with ids' show "GetId (h a) \<noteq> [] \<and> Map.empty (GetId (h a)) = None" by force
    qed
    have pre6: "inj_on (\<lambda>a. GetId (h a)) (set rs)"
    proof (rule inj_onI)
      fix x y assume "x \<in> set rs" "y \<in> set rs" and eq: "GetId (h x) = GetId (h y)"
      with rs_set obtain k k' where k: "old k = Some x" "old k' = Some y"
        by (auto simp: ran_def)
      with ids' have "GetId (h x) = k" "GetId (h y) = k'" by blast+
      with eq k show "x = y" by simp
    qed
    from replay_own[OF g(1,2,3) rs_dist pre5 pre6, of X p]
    obtain logged h' g' m' hs' where
      r: "replay X rs h (Rest g p) = (logged, h', Rest g' p)"
      and own': "InstanceId g' = []"
      and started: "started g' = started g"
      and st: "RouterStorage g' = Some m'"
      and rt: "router g' = Some ([] @ hs')"
      and post: "replay_post h Map.empty rs logged h' m' hs'"
      by (elim exE conjE) (rule that; assumption)
    have m': "m' = old"
      by (rule replay_post_empty_storage[OF post rs_set ids'])
    from post have
      heap_in: "\<And>a. a \<in> set rs \<Longrightarrow> h' a = (h a)\<lparr>GetParams := [replay_method (h a)]\<rparr>"
      and heap_out: "\<And>b. b \<notin> set rs \<Longrightarrow> h' b = h b"
      and hdls: "\<And>x. x \<in> set hs' \<Longrightarrow> h_router x \<in> set rs
                   \<and> x = replay_handle (h (h_router x)) (h_router x)"
      and each: "\<And>a. a \<in> set rs \<Longrightarrow> (\<exists>x\<in>set hs'. h_router x = a)
            \<or> (\<exists>e. (FromToString (h a), Error (''addRouter err :'' @ e)) \<in> set logged)"
      and count: "length hs' + length logged = length rs"
      unfolding replay_post_def by blast+
    have c1: "Restart X h (Rest f p) = (lis, logged, h', Rest g' p)"
      using unfold start None r by simp
    have c3: "started g'" using started g(4) None by simp
    have c4: "RouterStorage g' = Some old" using st m' by simp
    have c5: "router g' = Some hs'" using rt by simp
    have c6: "\<forall>x\<in>set hs'. h_router x \<in> ran old
                 \<and> x = replay_handle (h (h_router x)) (h_router x)"
      using hdls rs_set by simp
    have c7: "\<forall>a\<in>ran old. (\<exists>x\<in>set hs'. h_router x = a)
                 \<or> (\<exists>e. (FromToString (h a), Error (''addRouter err :'' @ e)) \<in> set logged)"
      using each rs_set by simp
    have c8: "length hs' + length logged = length (range_order X old)"
      using count rs_len by simp
    have c9: "\<forall>a\<in>ran old. h' a = (h a)\<lparr>GetParams := [replay_method (h a)]\<rparr>
                 \<and> (GetParams (h a) = [] \<longrightarrow> GetParams (h' a) = [''GET''])"
    proof
      fix a assume "a \<in> ran old"
      with rs_set have "a \<in> set rs" by simp
      from heap_in[OF this]
      show "h' a = (h a)\<lparr>GetParams := [replay_method (h a)]\<rparr>
                 \<and> (GetParams (h a) = [] \<longrightarrow> GetParams (h' a) = [''GET''])"
        by (simp add: replay_method_def ToUpper_GET)
    qed
    have c10: "\<forall>b. b \<notin> ran old \<longrightarrow> h' b = h b"
      using heap_out rs_set by simp
    have all: "started g' \<and> InstanceId g' = []
           \<and> RouterStorage g' = Some old
           \<and> router g' = Some hs'
           \<and> (\<forall>x\<in>set hs'. h_router x \<in> ran old
                 \<and> x = replay_handle (h (h_router x)) (h_router x))
           \<and> (\<forall>a\<in>ran old.
                 (\<exists>x\<in>set hs'. h_router x = a)
                 \<or> (\<exists>e. (FromToString (h a), Error (''addRouter err :'' @ e)) \<in> set logged))
           \<and> length hs' + length logged = length (range_order X old)
           \<and> (\<forall>a\<in>ran old.
                 h' a = (h a)\<lparr>GetParams := [replay_method (h a)]\<rparr>
                 \<and> (GetParams (h a) = [] \<longrightarrow> GetParams (h' a) = [''GET'']))
           \<and> (\<forall>b. b \<notin> ran old \<longrightarrow> h' b = h b)"
      by (intro conjI) (rule c3 own' c4 c5 c6 c7 c8 c9 c10)+
    show ?thesis
      unfolding lis_def[symmetric] old_def[symmetric]
      apply (rule exI[of _ logged], rule exI[of _ h'], rule exI[of _ g'], rule exI[of _ hs'])
      apply (intro conjI)
        apply (rule c1)
       apply (simp add: None)
      apply (rule impI, rule all)
      done
  qed
qed

lemma example_enabled:
  "enabled_routes example_routes example_fields = [''GET:/api/a'' \<mapsto> 0, ''r2'' \<mapsto> 2]"
  by (rule ext)
     (simp add: enabled_routes_def example_fields_def example_storage_def example_routes_def)

lemma example_order:
  "range_order example_rest_ext [''GET:/api/a'' \<mapsto> 0, ''r2'' \<mapsto> 2] = [''GET:/api/a'', ''r2'']"
  by (simp add: example_rest_ext_def)

lemma example_Listen:
  "Listen example_rest_ext (example_fields\<lparr>Server := Some (Config_Server example_fields)\<rparr>) = None"
  by (simp add: Listen_def example_rest_ext_def)

lemma example_ran:
  "ran [''GET:/api/a'' \<mapsto> (0::nat), ''r2'' \<mapsto> 2] = {0, 2}"
  by (simp add: ran_map_upd insert_commute)

lemma example_dom:
  "dom [''GET:/api/a'' \<mapsto> (0::nat), ''r2'' \<mapsto> 2] = {''GET:/api/a'', ''r2''}"
  by (simp add: insert_commute)
lemma Restart_example_log:
  "fst (snd (Restart example_rest_ext example_routes (Rest example_fields no_pool)))
     = [(''api/c'', Error ''addRouter err :path must begin with /'')]"
  by (simp add: example_enabled example_order Let_def example_fields_def fresh_fields_def
        newRouter_def checkIsInitSharedNode_def initServer_def startServer_def Listen_def
        example_rest_ext_def List.map_filter_def AddRouter_def addRouter_def
        addRouter_loop.simps set_route_def register_handle_def example_routes_def
        FromToString_def TrimSpace_def is_space_def ToUpper_def upper_char_def item_isWait_def
        RouterKey_def no_pool_def enabled_routes_def example_storage_def)

theorem Restart_replays_enabled_routes_witness:
  "fst (Restart example_rest_ext example_routes (Rest example_fields no_pool)) = None
   \<and> RouterStorage (rest_fields (snd (snd (snd
         (Restart example_rest_ext example_routes (Rest example_fields no_pool))))))
       = Some [''GET:/api/a'' \<mapsto> 0, ''r2'' \<mapsto> 2]
   \<and> example_storage ''POST:/api/b'' = Some 1
   \<and> GetParams (fst (snd (snd
         (Restart example_rest_ext example_routes (Rest example_fields no_pool)))) 0) = [''GET'']
   \<and> GetParams (fst (snd (snd
         (Restart example_rest_ext example_routes (Rest example_fields no_pool)))) 2) = [''PUT'']
   \<and> fst (snd (snd
         (Restart example_rest_ext example_routes (Rest example_fields no_pool)))) 1
       = example_routes 1
   \<and> fst (snd (Restart example_rest_ext example_routes (Rest example_fields no_pool)))
       = [(''api/c'', Error ''addRouter err :path must begin with /'')]"
proof -
  define old where "old = enabled_routes example_routes example_fields"
  have old_eq: "old = [''GET:/api/a'' \<mapsto> 0, ''r2'' \<mapsto> 2]"
    unfolding old_def by (rule example_enabled)
  have own: "InstanceId example_fields = []"
    by (simp add: example_fields_def fresh_fields_def)
  have ids: "\<forall>k a. old k = Some a \<longrightarrow> GetId (example_routes a) = k \<and> k \<noteq> []"
    unfolding old_eq by (simp add: example_routes_def)
  have order: "distinct (range_order example_rest_ext old)
     \<and> set (range_order example_rest_ext old) = dom old"
    unfolding old_eq example_order example_dom by simp
  have in0: "0 \<in> ran old" and in2: "2 \<in> ran old" and out1: "1 \<notin> ran old"
    unfolding old_eq example_ran by simp_all
  note inst = Restart_replays_enabled_routes
    [of example_fields example_routes example_rest_ext no_pool,
     folded old_def, OF own ids order, unfolded example_Listen]
  from inst obtain logged h' f' hs' where
    r: "Restart example_rest_ext example_routes (Rest example_fields no_pool)
          = (None, logged, h', Rest f' no_pool)"
    and st: "RouterStorage f' = Some old"
    and heap_in: "\<forall>a\<in>ran old.
        h' a = (example_routes a)\<lparr>GetParams := [replay_method (example_routes a)]\<rparr>
        \<and> (GetParams (example_routes a) = [] \<longrightarrow> GetParams (h' a) = [''GET''])"
    and heap_out: "\<forall>b. b \<notin> ran old \<longrightarrow> h' b = example_routes b"
    by blast
  have m2: "replay_method (example_routes 2) = ''PUT''"
    by (simp add: replay_method_def example_routes_def ToUpper_def upper_char_def)
  have p0: "GetParams (example_routes 0) = []"
    by (simp add: example_routes_def)
  from heap_in in0 p0 have c0: "GetParams (h' 0) = [''GET'']" by blast
  from heap_in in2 have "h' 2 = (example_routes 2)\<lparr>GetParams := [replay_method (example_routes 2)]\<rparr>"
    by blast
  with m2 have c2: "GetParams (h' 2) = [''PUT'']" by simp
  from heap_out out1 have c1: "h' 1 = example_routes 1" by blast
  have c3: "example_storage ''POST:/api/b'' = Some 1"
    by (simp add: example_storage_def)
  from r st c0 c1 c2 c3 Restart_example_log show ?thesis by (simp add: old_eq)
qed

subsection \<open>Registration\<close>

text \<open>
  A call of \<^verbatim>\<open>addRouter\<close> with one route, on any endpoint and whatever the call returns:
  the route's id afterwards is the composite of the upper-cased method, a colon and the
  trimmed path exactly when the route had no id, and the id it had otherwise; the storage
  holds the route under that id and is unchanged at every other key, so that registering
  under an id already stored replaces the entry and leaves the set of stored ids as it was.
\<close>

lemma addRouter_single_route:
  assumes "addRouter X method [item] h R = (res, h', R')"
  shows "GetId (h' item) =
           (if GetId (h item) = []
            then ToUpper method @ '':'' @ TrimSpace (FromToString (h item))
            else GetId (h item))
     \<and> RouterKey (ToUpper method) (TrimSpace (FromToString (h item)))
           = ToUpper method @ '':'' @ TrimSpace (FromToString (h item))
     \<and> (\<exists>st'. RouterStorage (rest_fields R') = Some st'
            \<and> st' (GetId (h' item)) = Some item
            \<and> (\<forall>k. k \<noteq> GetId (h' item) \<longrightarrow>
                   st' k = (case RouterStorage (rest_fields R) of None \<Rightarrow> None | Some st \<Rightarrow> st k))
            \<and> (\<forall>st. RouterStorage (rest_fields R) = Some st \<and> st (GetId (h' item)) \<noteq> None
                   \<longrightarrow> dom st' = dom st))"
proof -
  define st0 where
    "st0 = (case RouterStorage (rest_fields R) of None \<Rightarrow> Map.empty | Some st \<Rightarrow> st)"
  define key where
    "key = GetId (set_route (ToUpper method) (TrimSpace (FromToString (h item))) (h item))"
  from assms have loop: "addRouter_loop X (ToUpper method) [item] h (init_storage R) = (res, h', R')"
    by (simp add: addRouter_def)
  have st: "RouterStorage (rest_fields (init_storage R)) = Some st0"
    unfolding st0_def by (rule init_storage_fields(1))
  from addRouter_loop_single[OF st loop]
  have id: "GetId (h' item) = key"
    and stored: "RouterStorage (rest_fields R') = Some (st0(key \<mapsto> item))"
    unfolding key_def by simp_all
  have key: "key = (if GetId (h item) = []
            then ToUpper method @ '':'' @ TrimSpace (FromToString (h item))
            else GetId (h item))"
    by (simp add: key_def set_route_simps RouterKey_def)
  have frame: "\<forall>k. k \<noteq> key \<longrightarrow>
      (st0(key \<mapsto> item)) k = (case RouterStorage (rest_fields R) of None \<Rightarrow> None | Some st \<Rightarrow> st k)"
    by (simp add: st0_def split: option.split)
  have same_dom: "\<forall>st. RouterStorage (rest_fields R) = Some st \<and> st key \<noteq> None
      \<longrightarrow> dom (st0(key \<mapsto> item)) = dom st"
    by (auto simp: st0_def)
  have "\<exists>st'. RouterStorage (rest_fields R') = Some st'
            \<and> st' key = Some item
            \<and> (\<forall>k. k \<noteq> key \<longrightarrow>
                   st' k = (case RouterStorage (rest_fields R) of None \<Rightarrow> None | Some st \<Rightarrow> st k))
            \<and> (\<forall>st. RouterStorage (rest_fields R) = Some st \<and> st key \<noteq> None
                   \<longrightarrow> dom st' = dom st)"
    using stored frame same_dom by (intro exI[of _ "st0(key \<mapsto> item)"]) simp
  then show ?thesis
    unfolding id using key by (simp add: RouterKey_def)
qed

lemma example_routes_simps:
  "example_routes 0 = \<lparr>GetId = ''GET:/api/a'', GetParams = [], IsDisable = False,
                      GetFrom = Some (From ''/api/a'' (Some (To True)))\<rparr>"
  "example_routes 1 = \<lparr>GetId = ''POST:/api/b'', GetParams = [''POST''], IsDisable = True,
                           GetFrom = Some (From ''/api/b'' None)\<rparr>"
  "example_routes 2 = \<lparr>GetId = ''r2'', GetParams = [''put''], IsDisable = False,
                           GetFrom = Some (From ''api/c'' None)\<rparr>"
  "example_routes 3 = \<lparr>GetId = [], GetParams = [], IsDisable = False,
                           GetFrom = Some (From '' /api/new  '' None)\<rparr>"
  "example_routes 4 = \<lparr>GetId = ''r2'', GetParams = [], IsDisable = False,
             GetFrom = Some (From ''/api/c2'' None)\<rparr>"
  by (simp_all add: example_routes_def)

lemma ToUpper_examples: "ToUpper ''post'' = ''POST''" "ToUpper ''put'' = ''PUT''"
  by (simp_all add: ToUpper_def upper_char_def)

lemma TrimSpace_example: "TrimSpace '' /api/new  '' = ''/api/new''"
  by (simp add: TrimSpace_def is_space_def)

lemma addRouter_single_route_examples:
  "GetId (fst (snd (addRouter example_rest_ext ''post'' [3] example_routes
                      (Rest fresh_fields no_pool))) 3) = ''POST:/api/new''
   \<and> GetId (fst (snd (addRouter example_rest_ext ''put'' [4] example_routes
                      (Rest example_fields no_pool))) 4) = ''r2''
   \<and> (\<exists>st'. RouterStorage (rest_fields (snd (snd (addRouter example_rest_ext ''put'' [4]
                      example_routes (Rest example_fields no_pool))))) = Some st'
          \<and> st' ''r2'' = Some 4 \<and> dom st' = dom example_storage)"
proof -
  let ?a = "addRouter example_rest_ext ''post'' [3] example_routes (Rest fresh_fields no_pool)"
  let ?b = "addRouter example_rest_ext ''put'' [4] example_routes (Rest example_fields no_pool)"
  have a: "?a = (fst ?a, fst (snd ?a), snd (snd ?a))" by simp
  have b: "?b = (fst ?b, fst (snd ?b), snd (snd ?b))" by simp
  from addRouter_single_route[OF a]
  have one: "GetId (fst (snd ?a) 3) = ''POST:/api/new''"
    by (simp add: example_routes_simps ToUpper_examples TrimSpace_example FromToString_def)
  from addRouter_single_route[OF b]
  have id: "GetId (fst (snd ?b) 4) = ''r2''"
    by (simp add: example_routes_simps)
  from addRouter_single_route[OF b] obtain st' where
    st: "RouterStorage (rest_fields (snd (snd ?b))) = Some st'"
    and hit: "st' (GetId (fst (snd ?b) 4)) = Some 4"
    and same: "\<forall>st. RouterStorage (rest_fields (Rest example_fields no_pool)) = Some st
                 \<and> st (GetId (fst (snd ?b) 4)) \<noteq> None \<longrightarrow> dom st' = dom st"
    by blast
  have "RouterStorage (rest_fields (Rest example_fields no_pool)) = Some example_storage"
    "example_storage ''r2'' \<noteq> None"
    by (simp_all add: example_fields_def example_storage_def)
  with same id have "dom st' = dom example_storage" by simp
  with st hit id one show ?thesis by simp
qed

text \<open>
  A call with several routes on an endpoint that owns its server: when the call returns, it
  returns nil, every route of the call has its id (the composite exactly when it had none),
  and the storage holds under that id a route of the call with that id (the last one
  registered under it).
\<close>

lemma addRouter_loop_own:
  assumes "InstanceId f = []" "RouterStorage f = Some st"
    and "addRouter_loop X m routers h (Rest f p) = (Return e, h', R')"
  shows "e = None
     \<and> (\<forall>x. GetId (h' x) =
              (if x \<in> set routers
               then GetId (set_route m (TrimSpace (FromToString (h x))) (h x))
               else GetId (h x)))
     \<and> (\<forall>x. GetFrom (h' x) = GetFrom (h x))
     \<and> (\<exists>st'. RouterStorage (rest_fields R') = Some st'
            \<and> (\<forall>k. st' k = st k \<or> (\<exists>b\<in>set routers. st' k = Some b \<and> GetId (h' b) = k))
            \<and> (\<forall>x\<in>set routers. \<exists>b\<in>set routers.
                   st' (GetId (h' x)) = Some b \<and> GetId (h' b) = GetId (h' x)))"
  using assms
proof (induction routers arbitrary: f st h)
  case Nil
  then show ?case by (auto simp: addRouter_loop.simps(1))
next
  case (Cons item rs)
  define r where "r = set_route m (TrimSpace (FromToString (h item))) (h item)"
  define h1 where "h1 = h(item := r)"
  define key where "key = GetId r"
  define f1 where "f1 = f\<lparr>RouterStorage := Some (st(key \<mapsto> item))\<rparr>"
  obtain ee f2 where reg: "register_handle X m (TrimSpace (FromToString (h item))) item r f1 = (ee, f2)"
    by (cases "register_handle X m (TrimSpace (FromToString (h item))) item r f1")
  from register_handle_keeps[OF reg]
  have keeps: "RouterStorage f2 = Some (st(key \<mapsto> item))" "InstanceId f2 = []"
    using Cons.prems(1) by (simp_all add: f1_def)
  have ee: "ee = None"
  proof (cases ee)
    case (Some v)
    with reg have "addRouter_loop X m (item # rs) h (Rest f p) = (Panic v, h1, Rest f2 p)"
      unfolding r_def h1_def f1_def key_def
      by (intro addRouter_loop_own_panic[OF Cons.prems(2) Cons.prems(1)]) simp
    with Cons.prems(3) show ?thesis by simp
  qed simp
  with reg have "addRouter_loop X m (item # rs) h (Rest f p) = addRouter_loop X m rs h1 (Rest f2 p)"
    unfolding r_def h1_def f1_def key_def
    by (intro addRouter_loop_own_next[OF Cons.prems(2) Cons.prems(1)]) simp
  with Cons.prems(3) have rec: "addRouter_loop X m rs h1 (Rest f2 p) = (Return e, h', R')"
    by simp
  from Cons.IH[OF keeps(2) keeps(1) rec] obtain st' where
    e: "e = None"
    and ids: "\<And>x. GetId (h' x) =
              (if x \<in> set rs
               then GetId (set_route m (TrimSpace (FromToString (h1 x))) (h1 x))
               else GetId (h1 x))"
    and froms: "\<And>x. GetFrom (h' x) = GetFrom (h1 x)"
    and st': "RouterStorage (rest_fields R') = Some st'"
    and origin: "\<And>k. st' k = (st(key \<mapsto> item)) k
                    \<or> (\<exists>b\<in>set rs. st' k = Some b \<and> GetId (h' b) = k)"
    and stored: "\<And>x. x \<in> set rs \<Longrightarrow>
                   \<exists>b\<in>set rs. st' (GetId (h' x)) = Some b \<and> GetId (h' b) = GetId (h' x)"
    by blast
  have h1_item: "h1 item = r" and h1_other: "\<And>x. x \<noteq> item \<Longrightarrow> h1 x = h x"
    by (simp_all add: h1_def)
  have id_item: "GetId (h' item) = key"
    using ids[of item] by (simp add: h1_item key_def r_def set_route_twice(1))
  have ids': "GetId (h' x) =
              (if x \<in> set (item # rs)
               then GetId (set_route m (TrimSpace (FromToString (h x))) (h x))
               else GetId (h x))" for x
  proof (cases "x = item")
    case True
    with id_item show ?thesis by (simp add: key_def r_def)
  next
    case False
    with ids[of x] h1_other[of x] show ?thesis by simp
  qed
  have froms': "GetFrom (h' x) = GetFrom (h x)" for x
    using froms[of x] h1_other[of x] by (cases "x = item") (simp_all add: h1_item r_def set_route_simps(3))
  have origin': "st' k = st k \<or> (\<exists>b\<in>set (item # rs). st' k = Some b \<and> GetId (h' b) = k)" for k
  proof (cases "k = key")
    case True
    from origin[of k] show ?thesis
    proof
      assume "st' k = (st(key \<mapsto> item)) k"
      with True id_item have "st' k = Some item \<and> GetId (h' item) = k" by simp
      then show ?thesis by simp
    next
      assume "\<exists>b\<in>set rs. st' k = Some b \<and> GetId (h' b) = k"
      then show ?thesis by auto
    qed
  next
    case False
    from origin[of k] show ?thesis
    proof
      assume "st' k = (st(key \<mapsto> item)) k"
      with False show ?thesis by simp
    next
      assume "\<exists>b\<in>set rs. st' k = Some b \<and> GetId (h' b) = k"
      then show ?thesis by auto
    qed
  qed
  have stored': "\<exists>b\<in>set (item # rs). st' (GetId (h' x)) = Some b \<and> GetId (h' b) = GetId (h' x)"
    if "x \<in> set (item # rs)" for x
  proof (cases "x \<in> set rs")
    case True
    from stored[OF this] show ?thesis by auto
  next
    case False
    with that have x: "x = item" by simp
    from origin[of key] show ?thesis
    proof
      assume "st' key = (st(key \<mapsto> item)) key"
      with id_item x show ?thesis by simp
    next
      assume "\<exists>b\<in>set rs. st' key = Some b \<and> GetId (h' b) = key"
      with id_item x show ?thesis by auto
    qed
  qed
  from e ids' froms' st' origin' stored' show ?case
    by (intro conjI allI exI[of _ st'] ballI) assumption+
qed

lemma addRouter_own_every_route:
  assumes "InstanceId (rest_fields R) = []"
    and "addRouter X method routers h R = (Return e, h', R')"
  shows "e = None
     \<and> (\<forall>item\<in>set routers.
           GetId (h' item) =
             (if GetId (h item) = []
              then ToUpper method @ '':'' @ TrimSpace (FromToString (h item))
              else GetId (h item))
           \<and> (\<exists>st' b. RouterStorage (rest_fields R') = Some st'
                  \<and> st' (GetId (h' item)) = Some b \<and> b \<in> set routers
                  \<and> GetId (h' b) = GetId (h' item)))"
proof -
  obtain f p where R: "init_storage R = Rest f p" by (cases "init_storage R")
  from init_storage_fields(1)[of R] R obtain st where st: "RouterStorage f = Some st"
    by simp
  from init_storage_fields(2)[of R] R assms(1) have own: "InstanceId f = []"
    by simp
  from assms(2) R have loop: "addRouter_loop X (ToUpper method) routers h (Rest f p) = (Return e, h', R')"
    by (simp add: addRouter_def)
  from addRouter_loop_own[OF own st loop] obtain st' where
    e: "e = None"
    and ids: "\<And>x. GetId (h' x) =
              (if x \<in> set routers
               then GetId (set_route (ToUpper method) (TrimSpace (FromToString (h x))) (h x))
               else GetId (h x))"
    and st': "RouterStorage (rest_fields R') = Some st'"
    and stored: "\<And>x. x \<in> set routers \<Longrightarrow>
                   \<exists>b\<in>set routers. st' (GetId (h' x)) = Some b \<and> GetId (h' b) = GetId (h' x)"
    by blast
  have "GetId (h' item) =
             (if GetId (h item) = []
              then ToUpper method @ '':'' @ TrimSpace (FromToString (h item))
              else GetId (h item))
           \<and> (\<exists>st' b. RouterStorage (rest_fields R') = Some st'
                  \<and> st' (GetId (h' item)) = Some b \<and> b \<in> set routers
                  \<and> GetId (h' b) = GetId (h' item))"
    if "item \<in> set routers" for item
  proof
    from ids[of item] that show "GetId (h' item) =
             (if GetId (h item) = []
              then ToUpper method @ '':'' @ TrimSpace (FromToString (h item))
              else GetId (h item))"
      by (simp add: set_route_simps(1) RouterKey_def)
    from stored[OF that] obtain b where
      "b \<in> set routers" "st' (GetId (h' item)) = Some b" "GetId (h' b) = GetId (h' item)"
      by blast
    with st' show "\<exists>st' b. RouterStorage (rest_fields R') = Some st'
                  \<and> st' (GetId (h' item)) = Some b \<and> b \<in> set routers
                  \<and> GetId (h' b) = GetId (h' item)"
      by (intro exI[of _ st'] exI[of _ b]) simp
  qed
  then have "\<forall>item\<in>set routers.
           GetId (h' item) =
             (if GetId (h item) = []
              then ToUpper method @ '':'' @ TrimSpace (FromToString (h item))
              else GetId (h item))
           \<and> (\<exists>st' b. RouterStorage (rest_fields R') = Some st'
                  \<and> st' (GetId (h' item)) = Some b \<and> b \<in> set routers
                  \<and> GetId (h' b) = GetId (h' item))"
    by (rule ballI)
  with e show ?thesis by (rule conjI)
qed

lemma addRouter_own_example:
  "fst (addRouter example_rest_ext ''GET'' [0, 1] new_routes (Rest fresh_fields no_pool))
     = Return None
   \<and> GetId (fst (snd (addRouter example_rest_ext ''GET'' [0, 1] new_routes
                        (Rest fresh_fields no_pool))) 1) = ''GET:/api/b''
   \<and> RouterStorage (rest_fields (snd (snd (addRouter example_rest_ext ''GET'' [0, 1] new_routes
                        (Rest fresh_fields no_pool)))))
       = Some [''GET:/api/a'' \<mapsto> 0, ''GET:/api/b'' \<mapsto> 1]"
  by (simp add: addRouter_def fresh_fields_def no_pool_def
        addRouter_loop.simps Let_def ToUpper_GET set_route_def RouterKey_def
        register_handle_def newRouter_def item_isWait_def example_rest_ext_def new_routes_def
        FromToString_def TrimSpace_def is_space_def)

text \<open>
  On an endpoint that refers to a pooled instance both branches of lines 489 to 494 return
  from inside the loop, so the call ends at its first route whatever follows it.
\<close>

lemma addRouter_pooled_first_only:
  assumes "InstanceId (rest_fields R) \<noteq> []"
  shows "addRouter X method (item # routers) h R = addRouter X method [item] h R"
proof -
  obtain f p where R: "init_storage R = Rest f p" by (cases "init_storage R")
  from init_storage_fields(1)[of R] R obtain st where st: "RouterStorage f = Some st"
    by simp
  from init_storage_fields(2)[of R] R assms have inst: "InstanceId f \<noteq> []"
    by simp
  show ?thesis
    unfolding addRouter_def R
    using st inst by (simp add: addRouter_loop.simps Let_def)
qed

text \<open>
  C9. Route registration is to give every route the composite id when it has none and to
  store it under its id; \<^verbatim>\<open>addRouter\<close> is documented as registering one or more routes and
  does so on an endpoint that owns its server. On an endpoint that refers to a pooled
  instance the call \<^verbatim>\<open>GET(r0, r1)\<close> with two new routes returns nil, gives the first route
  the id \<^verbatim>\<open>GET:/api/a\<close> and stores and registers it, and leaves the second route without an
  id, stored nowhere and not registered.
\<close>

theorem addRouter_pooled_skips_later_routes:
  "addRouter example_rest_ext ''GET'' [0, 1] new_routes pooled_endpoint =
     (Return None,
      new_routes(0 := \<lparr>GetId = ''GET:/api/a'', GetParams = [''GET''], IsDisable = False,
                         GetFrom = Some (From ''/api/a'' None)\<rparr>),
      Rest (fresh_fields\<lparr>InstanceId := ''shared'', RouterStorage := Some [''GET:/api/a'' \<mapsto> 0]\<rparr>)
        (Inr (Rest (fresh_fields\<lparr>RouterStorage := Some [''GET:/api/a'' \<mapsto> 0],
                router := Some [\<lparr>h_method = ''GET'', h_path = ''/api/a'', h_router = 0,
                                   h_isWait = False\<rparr>]\<rparr>) no_pool)))
   \<and> GetId (fst (snd (addRouter example_rest_ext ''GET'' [0, 1] new_routes pooled_endpoint)) 1) = []"
proof -
  have first: "addRouter example_rest_ext ''GET'' [0, 1] new_routes pooled_endpoint =
      addRouter example_rest_ext ''GET'' [0] new_routes pooled_endpoint"
    by (rule addRouter_pooled_first_only) (simp add: pooled_endpoint_def)
  have "addRouter example_rest_ext ''GET'' [0] new_routes pooled_endpoint =
     (Return None,
      new_routes(0 := \<lparr>GetId = ''GET:/api/a'', GetParams = [''GET''], IsDisable = False,
                         GetFrom = Some (From ''/api/a'' None)\<rparr>),
      Rest (fresh_fields\<lparr>InstanceId := ''shared'', RouterStorage := Some [''GET:/api/a'' \<mapsto> 0]\<rparr>)
        (Inr (Rest (fresh_fields\<lparr>RouterStorage := Some [''GET:/api/a'' \<mapsto> 0],
                router := Some [\<lparr>h_method = ''GET'', h_path = ''/api/a'', h_router = 0,
                                   h_isWait = False\<rparr>]\<rparr>) no_pool)))"
    by (simp add: addRouter_def pooled_endpoint_def fresh_fields_def no_pool_def
        addRouter_loop.simps Let_def ToUpper_GET set_route_def RouterKey_def
        register_handle_def newRouter_def item_isWait_def example_rest_ext_def new_routes_def
        FromToString_def TrimSpace_def is_space_def)
  with first show ?thesis
    by (simp add: new_routes_def)
qed

subsection \<open>Removal\<close>

text \<open>
  C10. On an endpoint whose route storage is uninitialized, \<^verbatim>\<open>RemoveRouter\<close> returns nil
  for every route id and changes nothing.
\<close>

theorem RemoveRouter_uninitialized_storage:
  "RouterStorage f = None \<Longrightarrow> RemoveRouter h (Rest f p) routerId = (None, h, Rest f p)"
  by (simp add: Let_def)

theorem RemoveRouter_uninitialized_storage_witness:
  "RemoveRouter example_routes (Rest fresh_fields no_pool) ''GET:/api/a''
     = (None, example_routes, Rest fresh_fields no_pool)"
proof -
  have "RouterStorage fresh_fields = None" by (simp add: fresh_fields_def)
  then show ?thesis by (rule RemoveRouter_uninitialized_storage)
qed

text \<open>
  C4, as the code has it. \<^verbatim>\<open>RemoveRouter\<close> never changes the endpoint, so no stored entry is
  deleted. It looks the id up after trimming white space. When the storage is initialized and
  the trimmed id is stored and enabled, it returns nil and sets the disabled flag of that
  route object, so that every handler registered for the route answers not-found afterwards.
  When the storage is initialized and the trimmed id is absent or its route is disabled
  already, it returns the error "router: id not found" and changes nothing. (On an
  uninitialized storage it returns nil: C10.)
\<close>

theorem RemoveRouter_disables_stored_route:
  "snd (snd (RemoveRouter h R routerId)) = R
   \<and> (RouterStorage (rest_fields R) = Some storage \<and> storage (TrimSpace routerId) = Some a
        \<and> \<not> IsDisable (h a)
      \<longrightarrow> fst (RemoveRouter h R routerId) = None
          \<and> fst (snd (RemoveRouter h R routerId)) = h(a := (h a)\<lparr>IsDisable := True\<rparr>)
          \<and> IsDisable (fst (snd (RemoveRouter h R routerId)) a)
          \<and> (\<forall>x. h_router x = a \<longrightarrow> serve x (fst (snd (RemoveRouter h R routerId))) = NotFound))
   \<and> (RouterStorage (rest_fields R) = Some storage
        \<and> (storage (TrimSpace routerId) = None
            \<or> (\<exists>b. storage (TrimSpace routerId) = Some b \<and> IsDisable (h b)))
      \<longrightarrow> fst (RemoveRouter h R routerId) = Some (not_found (TrimSpace routerId))
          \<and> fst (snd (RemoveRouter h R routerId)) = h)"
  by (cases R) (auto simp: Let_def serve_def handler_def split: option.splits)

lemma TrimSpace_r2: "TrimSpace '' r2 '' = ''r2''" "TrimSpace ''POST:/api/b'' = ''POST:/api/b''"
  "TrimSpace ''GET:/api/z'' = ''GET:/api/z''"
  by (simp_all add: TrimSpace_def is_space_def)

theorem RemoveRouter_disables_stored_route_witness:
  "fst (RemoveRouter example_routes (Rest example_fields no_pool) '' r2 '') = None
   \<and> IsDisable (fst (snd (RemoveRouter example_routes (Rest example_fields no_pool) '' r2 '')) 2)
   \<and> snd (snd (RemoveRouter example_routes (Rest example_fields no_pool) '' r2 ''))
       = Rest example_fields no_pool
   \<and> fst (RemoveRouter example_routes (Rest example_fields no_pool) ''POST:/api/b'')
       = Some (not_found ''POST:/api/b'')
   \<and> fst (RemoveRouter example_routes (Rest example_fields no_pool) ''GET:/api/z'')
       = Some (not_found ''GET:/api/z'')"
proof -
  have st: "RouterStorage (rest_fields (Rest example_fields no_pool)) = Some example_storage"
    by (simp add: example_fields_def)
  have r2: "example_storage (TrimSpace '' r2 '') = Some 2" "\<not> IsDisable (example_routes 2)"
    by (simp_all add: TrimSpace_r2 example_storage_def example_routes_simps)
  have b: "example_storage (TrimSpace ''POST:/api/b'') = Some 1" "IsDisable (example_routes 1)"
    by (simp_all add: TrimSpace_r2 example_storage_def example_routes_def)
  have z: "example_storage (TrimSpace ''GET:/api/z'') = None"
    by (simp add: TrimSpace_r2 example_storage_def)
  from RemoveRouter_disables_stored_route
    [of example_routes "Rest example_fields no_pool" "'' r2 ''" example_storage 2] st r2
  have one: "fst (RemoveRouter example_routes (Rest example_fields no_pool) '' r2 '') = None"
    "IsDisable (fst (snd (RemoveRouter example_routes (Rest example_fields no_pool) '' r2 '')) 2)"
    "snd (snd (RemoveRouter example_routes (Rest example_fields no_pool) '' r2 ''))
       = Rest example_fields no_pool"
    by blast+
  from RemoveRouter_disables_stored_route
    [of example_routes "Rest example_fields no_pool" "''POST:/api/b''" example_storage 2] st b
  have two: "fst (RemoveRouter example_routes (Rest example_fields no_pool) ''POST:/api/b'')
       = Some (not_found (TrimSpace ''POST:/api/b''))"
    by blast
  from RemoveRouter_disables_stored_route
    [of example_routes "Rest example_fields no_pool" "''GET:/api/z''" example_storage 2] st z
  have three: "fst (RemoveRouter example_routes (Rest example_fields no_pool) ''GET:/api/z'')
       = Some (not_found (TrimSpace ''GET:/api/z''))"
    by blast
  from one two three show ?thesis by (simp add: TrimSpace_r2)
qed

text \<open>
  C4 as stated returns a not-found error for every absent id. On a fresh endpoint no id is
  stored, and removing one returns nil.
\<close>

theorem RemoveRouter_absent_id_counterexample:
  "RouterStorage (rest_fields (Rest fresh_fields no_pool)) = None
   \<and> fst (RemoveRouter example_routes (Rest fresh_fields no_pool) ''GET:/nowhere'') = None
   \<and> fst (RemoveRouter example_routes (Rest fresh_fields no_pool) ''GET:/nowhere'')
       \<noteq> Some (not_found ''GET:/nowhere'')"
  by (simp add: fresh_fields_def Let_def)

end
